theory Spec2Isabelle
  imports Main "HOL-Library.Word" "HOL-Library.Monad_Syntax"
begin

unbundle bit_operations_syntax

section \<open>The menu subsystem of labwc (src/menu/menu.c)\<close>

text \<open>
  A shallow embedding of \<^verbatim>\<open>src/menu/menu.c\<close>. Heap objects (\<^verbatim>\<open>struct menu\<close>,
  \<^verbatim>\<open>struct menuitem\<close>, \<^verbatim>\<open>struct action\<close>, \<^verbatim>\<open>struct pipe_context\<close>) are records; the
  intrusive lists \<^verbatim>\<open>server->menus\<close> and \<^verbatim>\<open>menu->menuitems\<close> are lists of
  (address, object) pairs in list order, so a list owns its elements as the C lists do.
  Every other pointer (\<^verbatim>\<open>item->submenu\<close>, \<^verbatim>\<open>menu->parent\<close>, \<^verbatim>\<open>menu->selection\<close>,
  \<^verbatim>\<open>selected_item\<close>, ...) is a weak reference: an optional address that is looked up
  when the code dereferences it. A function whose C body dereferences a pointer that is
  NULL or not live, fails an \<^verbatim>\<open>assert\<close>, or does not return, has the value \<open>None\<close>.
  A C \<^verbatim>\<open>int\<close> is modelled as an \<open>int\<close> in the range of 32 bits, with the arithmetic
  of the source written as \<open>cadd\<close>, \<open>csub\<close> and \<open>cmul\<close>, which wrap around in two's
  complement as the compiled code does.
  The scene graph is modelled as far as the menu logic reads or decides it: the enabled
  flag and position of a menu's tree, the vertical position of an item's tree, the
  enabled flags of an item's normal and selected state, and the maximal width set on an
  item's font buffers. Colours, rectangles and buffer contents belong to rendering.
\<close>

subsection \<open>C integers\<close>

definition INT_MAX :: int where "INT_MAX = 2147483647"

definition INT_MIN :: int where "INT_MIN = - 2147483648"

text \<open>The value a 32-bit \<^verbatim>\<open>int\<close> holds after a result \<open>x\<close> has been stored in it.\<close>

definition cint :: "int \<Rightarrow> int" where
  "cint x = (x + 2147483648) mod 4294967296 - 2147483648"

definition cadd :: "int \<Rightarrow> int \<Rightarrow> int" where "cadd a b = cint (a + b)"

definition csub :: "int \<Rightarrow> int \<Rightarrow> int" where "csub a b = cint (a - b)"

definition cmul :: "int \<Rightarrow> int \<Rightarrow> int" where "cmul a b = cint (a * b)"

definition in_int_range :: "int \<Rightarrow> bool" where
  "in_int_range x = (INT_MIN \<le> x \<and> x \<le> INT_MAX)"

subsection \<open>Data model\<close>

type_synonym addr = nat

datatype log_level = WLR_ERROR | WLR_INFO | WLR_DEBUG

datatype log_arg = S string | I int

type_synonym log_entry = "log_level \<times> string \<times> log_arg list"

datatype input_mode =
  LAB_INPUT_STATE_PASSTHROUGH | LAB_INPUT_STATE_MOVE | LAB_INPUT_STATE_RESIZE | LAB_INPUT_STATE_MENU

text \<open>\<^verbatim>\<open>enum menu_align\<close> of menu/menu.h is a set of bit flags.\<close>

type_synonym menu_align = "32 word"

definition LAB_MENU_OPEN_AUTO :: menu_align where "LAB_MENU_OPEN_AUTO = 0"
definition LAB_MENU_OPEN_LEFT :: menu_align where "LAB_MENU_OPEN_LEFT = 1"
definition LAB_MENU_OPEN_RIGHT :: menu_align where "LAB_MENU_OPEN_RIGHT = 2"
definition LAB_MENU_OPEN_TOP :: menu_align where "LAB_MENU_OPEN_TOP = 4"
definition LAB_MENU_OPEN_BOTTOM :: menu_align where "LAB_MENU_OPEN_BOTTOM = 8"

record theme =
  menu_min_width :: int
  menu_max_width :: int
  menu_item_padding_x :: int
  menu_item_padding_y :: int
  menu_overlap_x :: int
  menu_overlap_y :: int
  menu_separator_line_thickness :: int
  menu_separator_padding_width :: int
  menu_separator_padding_height :: int

record action =
  action_name :: string
  action_args :: "(string \<times> string) list"

record menuitem =
  item_parent :: addr
  execute :: "string option"
  item_id :: "string option"
  native_width :: int
  height :: int
  selectable :: bool
  submenu :: "addr option"
  actions :: "(addr \<times> action) list"
  node_y :: int
  normal_enabled :: bool
  selected_enabled :: bool
  is_separator :: bool
  buffer_max_width :: "int option"

record menu =
  menu_id :: string
  label :: string
  parent :: "addr option"
  size_width :: int
  size_height :: int
  item_height :: int
  menuitems :: "(addr \<times> menuitem) list"
  is_pipemenu :: bool
  align :: menu_align
  selection_item :: "addr option"
  selection_menu :: "addr option"
  triggered_by_view :: "addr option"
  scene_enabled :: bool
  scene_x :: int
  scene_y :: int

text \<open>
  One in-flight pipe-menu request (\<^verbatim>\<open>struct pipe_context\<close>). While it lives, its two
  event sources are registered with the event loop; \<open>pipe_ctxs\<close> below is the list of
  the contexts the event loop can still call back with.
\<close>

record pipe_context =
  ctx_item :: addr
  ctx_buf :: string
  ctx_pid :: int
  ctx_pipe_fd :: int

datatype signal = SIGTERM

text \<open>
  The state the file acts on: \<^verbatim>\<open>struct server\<close> as far as menu.c uses it, the
  file-scope variables of menu.c, and the effects on the outside (the log, the signals
  sent, the subprocesses released by \<^verbatim>\<open>spawn_piped_close\<close>). \<open>heap_next\<close> is the next
  address \<^verbatim>\<open>znew\<close> hands out.
\<close>

record server =
  menus :: "(addr \<times> menu) list"
  theme :: theme
  menu_current :: "addr option"
  input_mode :: input_mode
  in_item :: bool
  current_item :: "addr option"
  current_item_action :: "addr option"
  menu_level :: int
  current_menu :: "addr option"
  waiting_for_pipe_menu :: bool
  selected_item :: "addr option"
  pipe_ctxs :: "(addr \<times> pipe_context) list"
  kills :: "(int \<times> signal) list"
  closed_pipes :: "(int \<times> int) list"
  wlr_log :: "log_entry list"
  heap_next :: addr

datatype xmlNode =
  XmlNode (xml_name: string) (xml_content: "string option")
    (properties: "(string \<times> xmlNode list) list") (children: "xmlNode list")

record lab_output =
  output_x :: int
  output_y :: int
  usable_area_width :: int
  usable_area_height :: int

text \<open>
  The collaborators outside menu.c, as parameters: font measurement, the scaled font
  buffers (whose creation can fail), the action engine, libxml2's parser, the process
  spawner, the output layout and the configuration \<^verbatim>\<open>rc\<close>.
\<close>

record env =
  font_width :: "string \<Rightarrow> int"
  font_height :: int
  scaled_font_buffer_create :: "addr \<Rightarrow> bool"
  action_create :: "string \<Rightarrow> action option"
  action_arg_from_xml_node :: "action \<Rightarrow> string \<Rightarrow> string \<Rightarrow> action"
  action_is_valid :: "action \<Rightarrow> bool"
  xmlParseMemory :: "string \<Rightarrow> xmlNode list option"
  output_at :: "int \<Rightarrow> int \<Rightarrow> lab_output option"
  nr_workspaces :: nat
  merge_config :: bool
  menu_xml_files :: "(string \<times> string option) list"

subsection \<open>Helpers of the embedding\<close>

definition PIPEMENU_MAX_BUF_SIZE :: int where
  "PIPEMENU_MAX_BUF_SIZE = 1048576"

definition PIPEMENU_TIMEOUT_IN_MS :: int where
  "PIPEMENU_TIMEOUT_IN_MS = 4000"

text \<open>
  \<^verbatim>\<open>wlr_log\<close>: the format string and its arguments are appended to the log. A quote that
  ends a format string of the source is appended as \<open>CHR 0x27\<close>, a double quote is
  \<open>CHR 0x22\<close>.
\<close>

definition log_msg :: "log_level \<Rightarrow> string \<Rightarrow> log_arg list \<Rightarrow> server \<Rightarrow> server" where
  "log_msg lvl fmt args s = s\<lparr>wlr_log := wlr_log s @ [(lvl, fmt, args)]\<rparr>"

text \<open>\<^verbatim>\<open>znew\<close> (common/mem.h): a zeroed object at an address not handed out before.\<close>

definition znew :: "server \<Rightarrow> addr \<times> server" where
  "znew s = (heap_next s, s\<lparr>heap_next := Suc (heap_next s)\<rparr>)"

definition lookup_menu :: "server \<Rightarrow> addr \<Rightarrow> menu option" where
  "lookup_menu s m = map_of (menus s) m"

definition all_items :: "server \<Rightarrow> (addr \<times> menuitem) list" where
  "all_items s = concat (map (\<lambda>(a, M). menuitems M) (menus s))"

definition lookup_item :: "server \<Rightarrow> addr \<Rightarrow> menuitem option" where
  "lookup_item s i = map_of (all_items s) i"

definition update_at :: "addr \<Rightarrow> ('a \<Rightarrow> 'a) \<Rightarrow> (addr \<times> 'a) list \<Rightarrow> (addr \<times> 'a) list" where
  "update_at p f xs = map (\<lambda>(a, x). if a = p then (a, f x) else (a, x)) xs"

definition update_menu :: "addr \<Rightarrow> (menu \<Rightarrow> menu) \<Rightarrow> server \<Rightarrow> server" where
  "update_menu m f s = s\<lparr>menus := update_at m f (menus s)\<rparr>"

definition update_item :: "addr \<Rightarrow> (menuitem \<Rightarrow> menuitem) \<Rightarrow> server \<Rightarrow> server" where
  "update_item i f s =
     s\<lparr>menus := map (\<lambda>(a, M). (a, M\<lparr>menuitems := update_at i f (menuitems M)\<rparr>)) (menus s)\<rparr>"

subsection \<open>Menu registry\<close>

fun is_unique_id_loop :: "(addr \<times> menu) list \<Rightarrow> string \<Rightarrow> bool" where
  "is_unique_id_loop [] i = True"
| "is_unique_id_loop ((a, M) # ms) i = (if menu_id M = i then False else is_unique_id_loop ms i)"

definition is_unique_id :: "server \<Rightarrow> string \<Rightarrow> bool" where
  "is_unique_id s i = is_unique_id_loop (menus s) i"

text \<open>
  \<^verbatim>\<open>menu_create\<close>: a duplicate id is logged, and the menu is created and appended to
  \<^verbatim>\<open>server->menus\<close> all the same. The result is the new menu's address and the state.
\<close>

definition menu_create :: "server \<Rightarrow> string \<Rightarrow> string option \<Rightarrow> addr \<times> server" where
  "menu_create s i lbl =
     (let s1 = (if \<not> is_unique_id s i
                then log_msg WLR_ERROR ''menu id %s already exists'' [S i] s else s);
          (a, s2) = znew s1;
          M = \<lparr>menu_id = i,
               label = (case lbl of Some l \<Rightarrow> l | None \<Rightarrow> i),
               parent = current_menu s2,
               size_width = menu_min_width (theme s2),
               size_height = 0,
               item_height = 0,
               menuitems = [],
               is_pipemenu = waiting_for_pipe_menu s2,
               align = 0,
               selection_item = None,
               selection_menu = None,
               triggered_by_view = None,
               scene_enabled = False,
               scene_x = 0,
               scene_y = 0\<rparr>
      in (a, s2\<lparr>menus := menus s2 @ [(a, M)]\<rparr>))"

fun menu_get_by_id_loop :: "(addr \<times> menu) list \<Rightarrow> string \<Rightarrow> addr option" where
  "menu_get_by_id_loop [] i = None"
| "menu_get_by_id_loop ((a, M) # ms) i = (if menu_id M = i then Some a else menu_get_by_id_loop ms i)"

definition menu_get_by_id :: "server \<Rightarrow> string option \<Rightarrow> addr option" where
  "menu_get_by_id s i = (case i of None \<Rightarrow> None | Some i' \<Rightarrow> menu_get_by_id_loop (menus s) i')"

subsection \<open>Width of a menu\<close>

fun menu_update_width_widest :: "theme \<Rightarrow> (addr \<times> menuitem) list \<Rightarrow> int \<Rightarrow> int" where
  "menu_update_width_widest th [] max_width = max_width"
| "menu_update_width_widest th ((a, it) # its) max_width =
     menu_update_width_widest th its
       (if native_width it > max_width
        then (if native_width it < menu_max_width th then native_width it else menu_max_width th)
        else max_width)"

definition menu_update_width_item :: "int \<Rightarrow> menuitem \<Rightarrow> menuitem" where
  "menu_update_width_item max_width it =
     (if is_separator it then it
      else if native_width it > max_width \<or> submenu it \<noteq> None \<or> execute it \<noteq> None
      then it\<lparr>buffer_max_width := Some max_width\<rparr>
      else it)"

definition menu_update_width :: "theme \<Rightarrow> menu \<Rightarrow> menu" where
  "menu_update_width th M =
     (let max_width = menu_update_width_widest th (menuitems M) (menu_min_width th)
      in M\<lparr>size_width := cadd max_width (cmul 2 (menu_item_padding_x th)),
            menuitems := map (\<lambda>(a, it). (a, menu_update_width_item max_width it)) (menuitems M)\<rparr>)"

definition post_processing :: "server \<Rightarrow> server" where
  "post_processing s = s\<lparr>menus := map (\<lambda>(a, M). (a, menu_update_width (theme s) M)) (menus s)\<rparr>"

definition validate_menu :: "env \<Rightarrow> menu \<Rightarrow> menu" where
  "validate_menu E M =
     M\<lparr>menuitems := map (\<lambda>(a, it).
          (a, it\<lparr>actions := filter (\<lambda>(b, act). action_is_valid E act) (actions it)\<rparr>)) (menuitems M)\<rparr>"

fun validate_log :: "env \<Rightarrow> (addr \<times> action) list \<Rightarrow> server \<Rightarrow> server" where
  "validate_log E [] s = s"
| "validate_log E ((b, act) # acts) s =
     validate_log E acts
       (if \<not> action_is_valid E act then log_msg WLR_ERROR ''Removed invalid menu action'' [] s else s)"

definition validate :: "env \<Rightarrow> server \<Rightarrow> server" where
  "validate E s =
     (let s1 = validate_log E (concat (map (\<lambda>(a, it). actions it) (all_items s))) s
      in s1\<lparr>menus := map (\<lambda>(a, M). (a, validate_menu E M)) (menus s1)\<rparr>)"

subsection \<open>Items\<close>

text \<open>The submenu arrow is the UTF-8 encoding of U+203A.\<close>

definition arrow_glyph :: string where
  "arrow_glyph = [CHR 0xE2, CHR 0x80, CHR 0xBA]"

text \<open>
  \<^verbatim>\<open>item_create\<close>: \<open>None\<close> when an assertion fails or \<^verbatim>\<open>menu\<close> is not a live menu;
  otherwise the new item's address, or NULL when the font buffers could not be created
  (the menu's \<^verbatim>\<open>item_height\<close> has been initialised by then), and the state.
\<close>

definition item_create ::
  "env \<Rightarrow> addr option \<Rightarrow> string option \<Rightarrow> bool \<Rightarrow> server \<Rightarrow> (addr option \<times> server) option" where
  "item_create E menu txt show_arrow s =
     (case (menu, txt) of
        (Some m, Some t) \<Rightarrow>
          (case lookup_menu s m of
             None \<Rightarrow> None
           | Some M0 \<Rightarrow>
               let (a, s1) = znew s;
                   ih = (if item_height M0 = 0
                         then cadd (font_height E) (cmul 2 (menu_item_padding_y (theme s)))
                         else item_height M0);
                   s2 = update_menu m (\<lambda>M. M\<lparr>item_height := ih\<rparr>) s1;
                   nw = (if show_arrow then cadd (font_width E t) (font_width E arrow_glyph)
                         else font_width E t)
               in if \<not> scaled_font_buffer_create E a
                  then Some (None, log_msg WLR_ERROR (''Failed to create menu item '%s'' @ [CHR 0x27]) [S t] s2)
                  else
                    let it = \<lparr>item_parent = m, execute = None, item_id = None,
                              native_width = nw, height = ih, selectable = True,
                              submenu = None, actions = [], node_y = size_height M0,
                              normal_enabled = True, selected_enabled = False,
                              is_separator = False, buffer_max_width = None\<rparr>
                    in Some (Some a,
                         update_menu m (\<lambda>M. M\<lparr>size_height := cadd (size_height M) (height it),
                                                menuitems := menuitems M @ [(a, it)]\<rparr>) s2))
      | _ \<Rightarrow> None)"

definition separator_create ::
  "addr option \<Rightarrow> string option \<Rightarrow> server \<Rightarrow> (addr option \<times> server) option" where
  "separator_create menu lbl s =
     (case menu of
        None \<Rightarrow> None
      | Some m \<Rightarrow>
          (case lookup_menu s m of
             None \<Rightarrow> None
           | Some M0 \<Rightarrow>
               let (a, s1) = znew s;
                   th = theme s;
                   it = \<lparr>item_parent = m, execute = None, item_id = None,
                         native_width = 0,
                         height = cadd (menu_separator_line_thickness th)
                                    (cmul 2 (menu_separator_padding_height th)),
                         selectable = False,
                         submenu = None, actions = [], node_y = size_height M0,
                         normal_enabled = True, selected_enabled = False,
                         is_separator = True, buffer_max_width = None\<rparr>
               in Some (Some a,
                    update_menu m (\<lambda>M. M\<lparr>size_height := cadd (size_height M) (height it),
                                           menuitems := menuitems M @ [(a, it)]\<rparr>) s1)))"

subsection \<open>Strings and the XML tree\<close>

definition tolower :: "char \<Rightarrow> char" where
  "tolower c = (let n = (of_char c :: nat) in if 65 \<le> n \<and> n \<le> 90 then char_of (n + 32) else c)"

definition strcasecmp_eq :: "string \<Rightarrow> string \<Rightarrow> bool" where
  "strcasecmp_eq a b = (map tolower a = map tolower b)"

text \<open>
  \<^verbatim>\<open>string_truncate_at_pattern\<close> (common/string-helpers.c): cut the string at the first
  occurrence of the pattern.
\<close>

fun string_truncate_at_pattern :: "string \<Rightarrow> string \<Rightarrow> string" where
  "string_truncate_at_pattern [] pat = []"
| "string_truncate_at_pattern (c # cs) pat =
     (if take (length pat) (c # cs) = pat then [] else c # string_truncate_at_pattern cs pat)"

fun join_dots :: "string list \<Rightarrow> string" where
  "join_dots [] = []"
| "join_dots [x] = x"
| "join_dots (x # y # ys) = x @ ''.'' @ join_dots (y # ys)"

text \<open>
  Modelled from the spec: \<^verbatim>\<open>nodename\<close> (common/nodename.c) is not under src/. The
  path-qualified name is the chain of enclosing element names, deepest first, joined by
  a dot; a text node contributes no name of its own. \<open>anc\<close> are the names of the node's
  ancestors, nearest first, up to the root element.
\<close>

definition nodename :: "string list \<Rightarrow> xmlNode \<Rightarrow> string" where
  "nodename anc n =
     join_dots (map (map tolower) (if xml_name n = ''text'' then anc else xml_name n # anc))"

text \<open>
  libxml2, on this tree: a text or CDATA node is blank when it has no content or only
  blanks; \<^verbatim>\<open>xmlGetProp\<close> is the text of the attribute of that name, NULL without one;
  \<^verbatim>\<open>xmlNodeGetContent\<close> of a node is its own content, or the text below it.
\<close>

definition xmlIsBlankNode :: "xmlNode \<Rightarrow> bool" where
  "xmlIsBlankNode n =
     ((xml_name n = ''text'' \<or> xml_name n = ''cdata-section'') \<and>
      (case xml_content n of
         None \<Rightarrow> True
       | Some c \<Rightarrow> list_all (\<lambda>ch. ch = CHR 0x20 \<or> ch = CHR 0x09 \<or> ch = CHR 0x0A \<or> ch = CHR 0x0D) c))"

fun xmlNodeGetContent :: "xmlNode \<Rightarrow> string" where
  "xmlNodeGetContent (XmlNode nm c ps ch) =
     (case c of Some t \<Rightarrow> t | None \<Rightarrow> concat (map xmlNodeGetContent ch))"

definition xmlGetProp :: "xmlNode \<Rightarrow> string \<Rightarrow> string option" where
  "xmlGetProp n a =
     (case map_of (properties n) a of
        None \<Rightarrow> None
      | Some kids \<Rightarrow> Some (concat (map xmlNodeGetContent kids)))"

subsection \<open>Filling items from the parsed document\<close>

definition all_actions :: "server \<Rightarrow> (addr \<times> action) list" where
  "all_actions s = concat (map (\<lambda>(a, it). actions it) (all_items s))"

definition update_action :: "addr \<Rightarrow> (action \<Rightarrow> action) \<Rightarrow> server \<Rightarrow> server" where
  "update_action p f s =
     s\<lparr>menus := map (\<lambda>(a, M). (a, M\<lparr>menuitems :=
          map (\<lambda>(b, it). (b, it\<lparr>actions := update_at p f (actions it)\<rparr>)) (menuitems M)\<rparr>)) (menus s)\<rparr>"

text \<open>
  \<^verbatim>\<open>fill_item\<close>. The item and the action the file-scope cursors point to are looked up
  where the C code dereferences them.
\<close>

definition fill_item :: "env \<Rightarrow> string \<Rightarrow> string \<Rightarrow> server \<Rightarrow> server option" where
  "fill_item E nodename0 content s =
     (let nn = string_truncate_at_pattern
                 (string_truncate_at_pattern nodename0 ''.item.menu'') ''.item''
      in if nn = ''label'' then
           (case item_create E (current_menu s) (Some content) False s of
              None \<Rightarrow> None
            | Some (it, s1) \<Rightarrow> Some (s1\<lparr>current_item := it, current_item_action := None\<rparr>))
         else if current_item s = None then
           Some (log_msg WLR_ERROR (''expect <item label='' @ [CHR 0x22, CHR 0x22] @
                   ''> element first. nodename: '%s' content: '%s'' @ [CHR 0x27])
             [S nn, S content] s)
         else if nn = ''icon'' then Some s
         else if nn = ''name.action'' then
           (case action_create E content of
              None \<Rightarrow> Some (s\<lparr>current_item_action := None\<rparr>)
            | Some act \<Rightarrow>
                (case lookup_item s (the (current_item s)) of
                   None \<Rightarrow> None
                 | Some _ \<Rightarrow>
                     let (a, s1) = znew s
                     in Some (update_item (the (current_item s))
                               (\<lambda>it. it\<lparr>actions := actions it @ [(a, act)]\<rparr>)
                               (s1\<lparr>current_item_action := Some a\<rparr>))))
         else
           (case current_item_action s of
              None \<Rightarrow>
                Some (log_msg WLR_ERROR (''expect <action name='' @ [CHR 0x22, CHR 0x22] @
                   ''> element first. nodename: '%s' content: '%s'' @ [CHR 0x27])
                  [S nn, S content] s)
            | Some ca \<Rightarrow>
                (case map_of (all_actions s) ca of
                   None \<Rightarrow> None
                 | Some _ \<Rightarrow>
                     Some (update_action ca (\<lambda>act. action_arg_from_xml_node E act nn content) s))))"

definition nodename_supports_cdata :: "string \<Rightarrow> bool" where
  "nodename_supports_cdata nn =
     (take 15 nn = ''command.action.'' \<or> take 15 nn = ''execute.action.'')"

text \<open>
  \<^verbatim>\<open>entry\<close>; the debug print under \<^verbatim>\<open>LABWC_DEBUG_MENU_NODENAMES\<close> goes to stdout and
  is left out.
\<close>

definition entry :: "env \<Rightarrow> xmlNode \<Rightarrow> string \<Rightarrow> string option \<Rightarrow> server \<Rightarrow> server option" where
  "entry E node nn content s =
     (let cdata = (if content = None \<and> nodename_supports_cdata nn
                   then Some (xmlNodeGetContent node) else None)
      in if content = None \<and> cdata = None then Some s
         else
           let nn1 = string_truncate_at_pattern
                       (string_truncate_at_pattern nn ''.openbox_menu'') ''.openbox_pipe_menu''
           in if in_item s
              then fill_item E nn1 (case content of Some c \<Rightarrow> c | None \<Rightarrow> the cdata) s
              else Some s)"

definition process_node :: "env \<Rightarrow> string list \<Rightarrow> xmlNode \<Rightarrow> server \<Rightarrow> server option" where
  "process_node E anc node s =
     (if xmlIsBlankNode node then Some s
      else entry E node (nodename anc node) (xml_content node) s)"

text \<open>\<^verbatim>\<open>nr_parents\<close>: the parent links above a node, the document node included.\<close>

definition nr_parents :: "string list \<Rightarrow> int" where
  "nr_parents anc = min (int (length anc) + 1) INT_MAX"

definition is_toplevel_static_menu_definition :: "server \<Rightarrow> string list \<Rightarrow> string option \<Rightarrow> bool" where
  "is_toplevel_static_menu_definition s anc i =
     (if menu_level s \<noteq> 0 then False else i \<noteq> None \<and> nr_parents anc = 2)"

definition handle_separator_element :: "xmlNode \<Rightarrow> server \<Rightarrow> server option" where
  "handle_separator_element n s =
     (case separator_create (current_menu s) (xmlGetProp n ''label'') s of
        None \<Rightarrow> None
      | Some (it, s1) \<Rightarrow> Some (s1\<lparr>current_item := it\<rparr>))"

subsection \<open>Walking the document\<close>

text \<open>
  \<^verbatim>\<open>xml_tree_walk\<close>, \<^verbatim>\<open>traverse\<close> and \<^verbatim>\<open>handle_menu_element\<close> call each other;
  \<open>traverse_attrs\<close> is the loop of \<^verbatim>\<open>traverse\<close> over the attributes. \<open>anc\<close> are the
  names of the ancestors of the nodes walked.

  \<^verbatim>\<open>handle_menu_element\<close> is written in parts. \<open>handle_menu_element_enter\<close> is the
  code before the call of \<^verbatim>\<open>traverse\<close>: the three roles of a \<^verbatim>\<open>menu\<close> element are its
  three branches, in the source's order (\<open>menu_element_pipemenu\<close>, the first half of
  \<open>menu_element_definition\<close>, \<open>menu_element_link\<close>), and its result says whether the
  element is a menu definition whose content is traversed next.
  \<open>handle_menu_element_leave\<close> is the code after that call:
  \<^verbatim>\<open>current_menu = current_menu->parent; --menu_level\<close>.
\<close>

definition menu_element_pipemenu ::
  "env \<Rightarrow> string \<Rightarrow> string \<Rightarrow> string \<Rightarrow> server \<Rightarrow> server option" where
  "menu_element_pipemenu E lbl exe i s =
     (case item_create E (current_menu s) (Some lbl) True
             (log_msg WLR_DEBUG (''pipemenu '%s:%s:%s'' @ [CHR 0x27]) [S i, S lbl, S exe] s) of
        None \<Rightarrow> None
      | Some (None, s1) \<Rightarrow> None
      | Some (Some it, s1) \<Rightarrow>
          Some (update_item it (\<lambda>x. x\<lparr>execute := Some exe, item_id := Some i\<rparr>)
                  (s1\<lparr>current_item := Some it, current_item_action := None\<rparr>)))"

definition menu_element_definition ::
  "env \<Rightarrow> string option \<Rightarrow> string \<Rightarrow> server \<Rightarrow> server option" where
  "menu_element_definition E lbl i s =
     (case (if menu_level s > 0
            then (case item_create E (current_menu s) lbl True s of
                    None \<Rightarrow> None
                  | Some (it, s1) \<Rightarrow> Some (it, s1\<lparr>current_item := it\<rparr>))
            else Some (None, s)) of
        None \<Rightarrow> None
      | Some (sub, s1) \<Rightarrow>
          let r = menu_create (s1\<lparr>menu_level := cadd (menu_level s1) 1\<rparr>) i lbl;
              s4 = (snd r)\<lparr>current_menu := Some (fst r)\<rparr>
          in Some (case sub of
                     None \<Rightarrow> s4
                   | Some it \<Rightarrow> update_item it (\<lambda>x. x\<lparr>submenu := Some (fst r)\<rparr>) s4))"

definition menu_element_link :: "env \<Rightarrow> string \<Rightarrow> server \<Rightarrow> server option" where
  "menu_element_link E i s =
     (case (case current_menu s of
              None \<Rightarrow> Some False
            | Some cm \<Rightarrow> map_option is_pipemenu (lookup_menu s cm)) of
        None \<Rightarrow> None
      | Some True \<Rightarrow> Some (log_msg WLR_ERROR ''cannot link to static menu from pipemenu'' [] s)
      | Some False \<Rightarrow>
          (case menu_get_by_id s (Some i) of
             None \<Rightarrow> Some (log_msg WLR_ERROR (''no menu with id '%s'' @ [CHR 0x27]) [S i] s)
           | Some m \<Rightarrow>
               (case lookup_menu s m of
                  None \<Rightarrow> None
                | Some M \<Rightarrow>
                    (case item_create E (current_menu s) (Some (label M)) True s of
                       None \<Rightarrow> None
                     | Some (None, s1) \<Rightarrow> Some (s1\<lparr>current_item := None\<rparr>)
                     | Some (Some it, s1) \<Rightarrow>
                         Some (update_item it (\<lambda>x. x\<lparr>submenu := Some m\<rparr>)
                                 (s1\<lparr>current_item := Some it\<rparr>))))))"

definition handle_menu_element_enter ::
  "env \<Rightarrow> string list \<Rightarrow> xmlNode \<Rightarrow> server \<Rightarrow> (bool \<times> server) option" where
  "handle_menu_element_enter E anc n s =
     (let lbl = xmlGetProp n ''label'';
          exe = xmlGetProp n ''execute'';
          i = xmlGetProp n ''id''
      in if exe \<noteq> None \<and> lbl \<noteq> None \<and> i \<noteq> None then
           map_option (Pair False) (menu_element_pipemenu E (the lbl) (the exe) (the i) s)
         else if (lbl \<noteq> None \<and> i \<noteq> None) \<or> is_toplevel_static_menu_definition s anc i then
           map_option (Pair True) (menu_element_definition E lbl (the i) s)
         else if i \<noteq> None then
           map_option (Pair False) (menu_element_link E (the i) s)
         else Some (False, s))"

definition handle_menu_element_leave :: "server \<Rightarrow> server option" where
  "handle_menu_element_leave s =
     (case current_menu s of
        None \<Rightarrow> None
      | Some cm \<Rightarrow>
          (case lookup_menu s cm of
             None \<Rightarrow> None
           | Some CM \<Rightarrow> Some (s\<lparr>current_menu := parent CM, menu_level := csub (menu_level s) 1\<rparr>)))"

lemma size_properties_less:
  "size_list (size_prod (\<lambda>_. 0) (size_list size)) (properties n) < size n"
  by (cases n) simp

lemma size_children_less: "size_list size (children n) < size n"
  by (cases n) simp

lemma size_properties_less2:
  "2 * size_list (size_prod (\<lambda>_. 0) (size_list size)) (properties n) < Suc (2 * size n)"
  using size_properties_less [of n] by arith

lemma size_children_less2: "2 * size_list size (children n) < Suc (2 * size n)"
  using size_children_less [of n] by arith

lemma size_attr_less:
  "2 * size_list size (snd at) < Suc (Suc (2 * size_prod (\<lambda>_. 0) (size_list size) at + k))"
  by (cases at) simp

function xml_tree_walk :: "env \<Rightarrow> string list \<Rightarrow> xmlNode list \<Rightarrow> server \<Rightarrow> server option"
  and traverse :: "env \<Rightarrow> string list \<Rightarrow> xmlNode \<Rightarrow> server \<Rightarrow> server option"
  and traverse_attrs :: "env \<Rightarrow> string list \<Rightarrow> (string \<times> xmlNode list) list \<Rightarrow> server \<Rightarrow> server option"
  and handle_menu_element :: "env \<Rightarrow> string list \<Rightarrow> xmlNode \<Rightarrow> server \<Rightarrow> server option"
where
  "xml_tree_walk E anc [] s = Some s"
| "xml_tree_walk E anc (n # ns) s =
     (if strcasecmp_eq (xml_name n) ''comment'' then xml_tree_walk E anc ns s
      else if strcasecmp_eq (xml_name n) ''menu'' then
        (case handle_menu_element E anc n s of
           None \<Rightarrow> None
         | Some s1 \<Rightarrow> xml_tree_walk E anc ns s1)
      else if strcasecmp_eq (xml_name n) ''separator'' then
        (case handle_separator_element n s of
           None \<Rightarrow> None
         | Some s1 \<Rightarrow> xml_tree_walk E anc ns s1)
      else if strcasecmp_eq (xml_name n) ''item'' then
        (case traverse E anc n (s\<lparr>in_item := True\<rparr>) of
           None \<Rightarrow> None
         | Some s1 \<Rightarrow> xml_tree_walk E anc ns (s1\<lparr>in_item := False\<rparr>))
      else
        (case traverse E anc n s of
           None \<Rightarrow> None
         | Some s1 \<Rightarrow> xml_tree_walk E anc ns s1))"
| "traverse E anc n s =
     (case process_node E anc n s of
        None \<Rightarrow> None
      | Some s1 \<Rightarrow>
          (case traverse_attrs E (xml_name n # anc) (properties n) s1 of
             None \<Rightarrow> None
           | Some s2 \<Rightarrow> xml_tree_walk E (xml_name n # anc) (children n) s2))"
| "traverse_attrs E anc [] s = Some s"
| "traverse_attrs E anc (at # ats) s =
     (case xml_tree_walk E (fst at # anc) (snd at) s of
        None \<Rightarrow> None
      | Some s1 \<Rightarrow> traverse_attrs E anc ats s1)"
| "handle_menu_element E anc n s =
     (case handle_menu_element_enter E anc n s of
        None \<Rightarrow> None
      | Some (is_definition, s1) \<Rightarrow>
          if \<not> is_definition then Some s1
          else (case traverse E anc n s1 of
                  None \<Rightarrow> None
                | Some s2 \<Rightarrow> handle_menu_element_leave s2))"
  by pat_completeness auto
termination
  by (relation "measure (\<lambda>x. case x of
        Inl (Inl (E, anc, ns, s)) \<Rightarrow> 2 * size_list size ns
      | Inl (Inr (E, anc, n, s)) \<Rightarrow> 2 * size n
      | Inr (Inl (E, anc, ats, s)) \<Rightarrow> 2 * size_list (size_prod (\<lambda>_. 0) (size_list size)) ats
      | Inr (Inr (E, anc, n, s)) \<Rightarrow> 2 * size n + 1)")
    (simp_all add: size_properties_less size_children_less less_imp_le
       size_properties_less2 size_children_less2 size_attr_less)

text \<open>
  \<^verbatim>\<open>parse_buf\<close>: \<open>xmlParseMemory E\<close> is libxml2's parser; its result stands for
  \<^verbatim>\<open>xmlDocGetRootElement\<close> of the document, the root element followed by its siblings.
\<close>

definition parse_buf :: "env \<Rightarrow> string \<Rightarrow> server \<Rightarrow> (bool \<times> server) option" where
  "parse_buf E buf s =
     (case xmlParseMemory E buf of
        None \<Rightarrow> Some (False, log_msg WLR_ERROR ''xmlParseMemory()'' [] s)
      | Some d \<Rightarrow> map_option (Pair True) (xml_tree_walk E [] d s))"

text \<open>
  \<^verbatim>\<open>parse_stream\<close> joins the lines of the stream without their newlines (the stream
  holds no NUL byte) and parses the result; the outcome of the parse is dropped.
\<close>

definition parse_stream :: "env \<Rightarrow> string \<Rightarrow> server \<Rightarrow> server option" where
  "parse_stream E stream s = map_option snd (parse_buf E (filter (\<lambda>c. c \<noteq> CHR 0x0A) stream) s)"

text \<open>
  \<^verbatim>\<open>parse_xml\<close>: \<open>menu_xml_files E\<close> are the candidate paths of \<^verbatim>\<open>menu.xml\<close> in the
  order of \<^verbatim>\<open>paths_config_create\<close>, each with the content of the file when
  \<^verbatim>\<open>fopen\<close> succeeds. A path that cannot be opened ends the function.
\<close>

fun parse_xml_loop :: "env \<Rightarrow> bool \<Rightarrow> (string \<times> string option) list \<Rightarrow> server \<Rightarrow> server option" where
  "parse_xml_loop E should_merge_config [] s = Some s"
| "parse_xml_loop E should_merge_config ((path, stream) # ps) s =
     (case stream of
        None \<Rightarrow> Some s
      | Some c \<Rightarrow>
          (case parse_stream E c (log_msg WLR_INFO ''read menu file %s'' [S path] s) of
             None \<Rightarrow> None
           | Some s1 \<Rightarrow>
               if \<not> should_merge_config then Some s1
               else parse_xml_loop E should_merge_config ps s1))"

definition parse_xml :: "env \<Rightarrow> server \<Rightarrow> server option" where
  "parse_xml E s =
     parse_xml_loop E (merge_config E)
       (if merge_config E then rev (menu_xml_files E) else menu_xml_files E) s"

subsection \<open>Placement\<close>

text \<open>
  The recursions of \<^verbatim>\<open>menu_get_full_width\<close> and \<^verbatim>\<open>menu_configure\<close> follow
  \<^verbatim>\<open>item->submenu\<close> through the heap, which a configuration can make cyclic (a menu
  that links to itself by id). The first argument bounds the depth of the recursion:
  \<open>None\<close> is a call that needs more depth than that, or dereferences a dead pointer.
\<close>

function menu_get_full_width :: "nat \<Rightarrow> server \<Rightarrow> addr \<Rightarrow> int option"
  and menu_get_full_width_items ::
    "nat \<Rightarrow> server \<Rightarrow> (addr \<times> menuitem) list \<Rightarrow> int \<Rightarrow> int option"
where
  "menu_get_full_width 0 s m = None"
| "menu_get_full_width (Suc k) s m =
     (case lookup_menu s m of
        None \<Rightarrow> None
      | Some M \<Rightarrow>
          (case menu_get_full_width_items k s (menuitems M) 0 of
             None \<Rightarrow> None
           | Some max_child_width \<Rightarrow>
               Some (cadd (csub (size_width M) (menu_overlap_x (theme s))) max_child_width)))"
| "menu_get_full_width_items k s [] max_child_width = Some max_child_width"
| "menu_get_full_width_items k s ((a, it) # its) max_child_width =
     (case submenu it of
        None \<Rightarrow> menu_get_full_width_items k s its max_child_width
      | Some sub \<Rightarrow>
          (case menu_get_full_width k s sub of
             None \<Rightarrow> None
           | Some child_width \<Rightarrow>
               menu_get_full_width_items k s its
                 (if child_width > max_child_width then child_width else max_child_width)))"
  by pat_completeness auto
termination
  by (relation "inv_image (less_than <*lex*> less_than) (\<lambda>x. case x of
        Inl (k, s, m) \<Rightarrow> (2 * k, 0)
      | Inr (k, s, its, w) \<Rightarrow> (2 * k + 1, length its))")
    auto

definition get_submenu_position :: "server \<Rightarrow> menuitem \<Rightarrow> menu_align \<Rightarrow> (int \<times> int) option" where
  "get_submenu_position s it al =
     (case lookup_menu s (item_parent it) of
        None \<Rightarrow> None
      | Some M \<Rightarrow>
          Some ((if al AND LAB_MENU_OPEN_RIGHT \<noteq> 0
                 then csub (cadd (scene_x M) (size_width M)) (menu_overlap_x (theme s))
                 else scene_x M),
                csub (cadd (scene_y M) (node_y it)) (menu_overlap_y (theme s))))"

text \<open>
  The alignment \<^verbatim>\<open>menu_configure\<close> resolves for a menu at output-local \<open>(ox, oy)\<close>:
  the horizontal direction from the full width when the alignment is automatic, then
  the vertical direction from the menu's height. In the source \<^verbatim>\<open>ox\<close> and \<^verbatim>\<open>oy\<close> are
  doubles, so the output-local coordinates and the two sums compared with the usable
  area are computed exactly, without wrap-around.
\<close>

definition resolve_align_x :: "lab_output \<Rightarrow> int \<Rightarrow> int \<Rightarrow> menu_align" where
  "resolve_align_x out ox full_width =
     (if ox + full_width > usable_area_width out then LAB_MENU_OPEN_LEFT else LAB_MENU_OPEN_RIGHT)"

definition resolve_align_y :: "lab_output \<Rightarrow> int \<Rightarrow> int \<Rightarrow> menu_align \<Rightarrow> menu_align" where
  "resolve_align_y out oy h al =
     (if oy + h > usable_area_height out
      then (al AND NOT LAB_MENU_OPEN_BOTTOM) OR LAB_MENU_OPEN_TOP
      else (al AND NOT LAB_MENU_OPEN_TOP) OR LAB_MENU_OPEN_BOTTOM)"

function menu_configure ::
    "env \<Rightarrow> nat \<Rightarrow> addr \<Rightarrow> int \<Rightarrow> int \<Rightarrow> menu_align \<Rightarrow> server \<Rightarrow> server option"
  and menu_configure_items ::
    "env \<Rightarrow> nat \<Rightarrow> (addr \<times> menuitem) list \<Rightarrow> menu_align \<Rightarrow> server \<Rightarrow> server option"
where
  "menu_configure E 0 m lx ly al s = None"
| "menu_configure E (Suc k) m lx ly al s =
     (case lookup_menu s m of
        None \<Rightarrow> None
      | Some M \<Rightarrow>
          (case output_at E lx ly of
             None \<Rightarrow>
               Some (log_msg WLR_ERROR
                 ''Failed to position menu %s (%s) and its submenus: Not enough screen space''
                 [S (menu_id M), S (label M)] s)
           | Some out \<Rightarrow>
               let ox = lx - output_x out;
                   oy = ly - output_y out
               in (case (if al = LAB_MENU_OPEN_AUTO
                         then map_option (resolve_align_x out ox) (menu_get_full_width k s m)
                         else Some al) of
                     None \<Rightarrow> None
                   | Some al1 \<Rightarrow>
                       let al2 = resolve_align_y out oy (size_height M) al1;
                           lx1 = (if al2 AND LAB_MENU_OPEN_LEFT \<noteq> 0
                                  then csub lx (csub (size_width M) (menu_overlap_x (theme s)))
                                  else lx);
                           ly1 = (if al2 AND LAB_MENU_OPEN_TOP \<noteq> 0
                                  then (if parent M \<noteq> None
                                        then cadd (csub ly (size_height M)) (item_height M)
                                        else csub ly (size_height M))
                                  else ly);
                           s1 = update_menu m
                                  (\<lambda>M'. M'\<lparr>scene_x := lx1, scene_y := ly1, align := al2\<rparr>) s
                       in menu_configure_items E k (menuitems M) al2 s1)))"
| "menu_configure_items E k [] al s = Some s"
| "menu_configure_items E k ((a, it) # its) al s =
     (case submenu it of
        None \<Rightarrow> menu_configure_items E k its al s
      | Some sub \<Rightarrow>
          (case get_submenu_position s it al of
             None \<Rightarrow> None
           | Some (px, py) \<Rightarrow>
               (case menu_configure E k sub px py al s of
                  None \<Rightarrow> None
                | Some s1 \<Rightarrow> menu_configure_items E k its al s1)))"
  by pat_completeness auto
termination
  by (relation "inv_image (less_than <*lex*> less_than) (\<lambda>x. case x of
        Inl (E, k, m, lx, ly, al, s) \<Rightarrow> (2 * k, 0)
      | Inr (E, k, its, al, s) \<Rightarrow> (2 * k + 1, length its))")
    auto

subsection \<open>Hiding a submenu, the default menus\<close>

fun reposition_items :: "(addr \<times> menuitem) list \<Rightarrow> int \<Rightarrow> (addr \<times> menuitem) list \<times> int" where
  "reposition_items [] h = ([], h)"
| "reposition_items ((a, it) # its) h =
     (let (its', h') = reposition_items its (cadd h (height it))
      in ((a, it\<lparr>node_y := h\<rparr>) # its', h'))"

text \<open>
  The body of the outer loop of \<^verbatim>\<open>menu_hide_submenu\<close> for one menu: the items that point
  to \<open>hide_menu\<close> are destroyed; if there was one, the rest is positioned again.
\<close>

definition menu_hide_submenu_in :: "addr \<Rightarrow> menu \<Rightarrow> menu" where
  "menu_hide_submenu_in hide_menu M =
     (let should_reposition = list_ex (\<lambda>(a, it). submenu it = Some hide_menu) (menuitems M);
          kept = filter (\<lambda>(a, it). submenu it \<noteq> Some hide_menu) (menuitems M)
      in if \<not> should_reposition then M
         else let (its', h) = reposition_items kept 0
              in M\<lparr>menuitems := its', size_height := h\<rparr>)"

definition menu_hide_submenu :: "server \<Rightarrow> string \<Rightarrow> server" where
  "menu_hide_submenu s i =
     (case menu_get_by_id s (Some i) of
        None \<Rightarrow> s
      | Some hide_menu \<Rightarrow>
          s\<lparr>menus := map (\<lambda>(a, M). (a, menu_hide_submenu_in hide_menu M)) (menus s)\<rparr>)"

text \<open>
  The pattern of the default menus: \<^verbatim>\<open>current_item = item_create(menu, text, arrow)\<close>
  followed by calls of \<^verbatim>\<open>fill_item\<close>.
\<close>

fun fill_items :: "env \<Rightarrow> (string \<times> string) list \<Rightarrow> server \<Rightarrow> server option" where
  "fill_items E [] s = Some s"
| "fill_items E ((nn, content) # fs) s =
     (case fill_item E nn content s of None \<Rightarrow> None | Some s1 \<Rightarrow> fill_items E fs s1)"

definition default_item ::
  "env \<Rightarrow> addr \<Rightarrow> string \<Rightarrow> bool \<Rightarrow> (string \<times> string) list \<Rightarrow> server \<Rightarrow> server option" where
  "default_item E m txt show_arrow fs s =
     (case item_create E (Some m) (Some txt) show_arrow s of
        None \<Rightarrow> None
      | Some (it, s1) \<Rightarrow> fill_items E fs (s1\<lparr>current_item := it\<rparr>))"

definition get_or_create_default :: "server \<Rightarrow> string \<Rightarrow> addr \<times> server" where
  "get_or_create_default s i =
     (case menu_get_by_id s (Some i) of
        Some m \<Rightarrow> (m, s)
      | None \<Rightarrow> menu_create (s\<lparr>current_menu := None\<rparr>) i (Some ''''))"

definition init_rootmenu :: "env \<Rightarrow> server \<Rightarrow> server option" where
  "init_rootmenu E s =
     (let (m, s1) = get_or_create_default s ''root-menu''
      in case lookup_menu s1 m of
           None \<Rightarrow> None
         | Some M \<Rightarrow>
             if menuitems M = [] then
               do {
                 s2 \<leftarrow> default_item E m ''Reconfigure'' False [(''name.action'', ''Reconfigure'')] s1;
                 default_item E m ''Exit'' False [(''name.action'', ''Exit'')] s2
               }
             else Some s1)"

definition init_windowmenu :: "env \<Rightarrow> server \<Rightarrow> server option" where
  "init_windowmenu E s =
     (let (m, s1) = get_or_create_default s ''client-menu''
      in case lookup_menu s1 m of
           None \<Rightarrow> None
         | Some M \<Rightarrow>
             do {
               s2 \<leftarrow>
                 (if menuitems M = [] then
                    do {
                      t1 \<leftarrow> default_item E m ''Minimize'' False [(''name.action'', ''Iconify'')] s1;
                      t2 \<leftarrow> default_item E m ''Maximize'' False [(''name.action'', ''ToggleMaximize'')] t1;
                      t3 \<leftarrow> default_item E m ''Fullscreen'' False [(''name.action'', ''ToggleFullscreen'')] t2;
                      t4 \<leftarrow> default_item E m ''Roll up/down'' False [(''name.action'', ''ToggleShade'')] t3;
                      t5 \<leftarrow> default_item E m ''Decorations'' False [(''name.action'', ''ToggleDecorations'')] t4;
                      t6 \<leftarrow> default_item E m ''Always on Top'' False [(''name.action'', ''ToggleAlwaysOnTop'')] t5;
                      (let (w, t7) = menu_create t6 ''workspaces'' (Some '''')
                       in do {
                         t8 \<leftarrow> default_item E w ''Move left'' False
                                 [(''name.action'', ''SendToDesktop''), (''to.action'', ''left'')] t7;
                         t9 \<leftarrow> default_item E w ''Move right'' False
                                 [(''name.action'', ''SendToDesktop''), (''to.action'', ''right'')] t8;
                         (sep, t10) \<leftarrow> separator_create (Some w) (Some '''') t9;
                         t11 \<leftarrow> default_item E w ''Always on Visible Workspace'' False
                                 [(''name.action'', ''ToggleOmnipresent'')] (t10\<lparr>current_item := sep\<rparr>);
                         (it, t12) \<leftarrow> item_create E (Some m) (Some ''Workspace'') True t11;
                         (case it of
                            None \<Rightarrow> None
                          | Some i \<Rightarrow>
                              default_item E m ''Close'' False [(''name.action'', ''Close'')]
                                (update_item i (\<lambda>x. x\<lparr>submenu := Some w\<rparr>)
                                   (t12\<lparr>current_item := Some i\<rparr>)))
                       })
                    }
                  else Some s1);
               Some (if nr_workspaces E = 1 then menu_hide_submenu s2 ''workspaces'' else s2)
             })"

definition menu_init :: "env \<Rightarrow> server \<Rightarrow> server option" where
  "menu_init E s =
     do {
       s1 \<leftarrow> parse_xml E (s\<lparr>menus := []\<rparr>);
       s2 \<leftarrow> init_rootmenu E s1;
       s3 \<leftarrow> init_windowmenu E s2;
       Some (validate E (post_processing s3))
     }"

subsection \<open>Freeing menus\<close>

definition nullify_item_pointing_to_this_menu :: "addr \<Rightarrow> server \<Rightarrow> server" where
  "nullify_item_pointing_to_this_menu m s =
     s\<lparr>menus := map (\<lambda>(a, iter).
          (a, iter\<lparr>menuitems := map (\<lambda>(b, it).
                     (b, if submenu it = Some m then it\<lparr>submenu := None\<rparr> else it)) (menuitems iter),
                   parent := (if parent iter = Some m then None else parent iter)\<rparr>)) (menus s)\<rparr>"

text \<open>
  \<^verbatim>\<open>menu_free\<close>: the references to the menu are cleared, then the menu leaves
  \<^verbatim>\<open>server->menus\<close> and is released together with the items it owns.
\<close>

definition menu_free :: "addr \<Rightarrow> server \<Rightarrow> server" where
  "menu_free m s =
     (let s1 = nullify_item_pointing_to_this_menu m s
      in s1\<lparr>menus := filter (\<lambda>(a, M). a \<noteq> m) (menus s1)\<rparr>)"

text \<open>
  The loops with \<^verbatim>\<open>wl_list_for_each_safe\<close> visit the menus that were in the list when
  the loop started; \<^verbatim>\<open>menu_free\<close> removes only the menu visited.
\<close>

fun menu_free_from_loop :: "addr option \<Rightarrow> bool \<Rightarrow> (addr \<times> menu) list \<Rightarrow> server \<Rightarrow> server" where
  "menu_free_from_loop from destroying [] s = s"
| "menu_free_from_loop from destroying ((a, M) # ms) s =
     (let destroying' = (destroying \<or> Some a = from)
      in menu_free_from_loop from destroying' ms (if destroying' then menu_free a s else s))"

definition menu_free_from :: "server \<Rightarrow> addr option \<Rightarrow> server" where
  "menu_free_from s from = menu_free_from_loop from (from = None) (menus s) s"

definition menu_finish :: "server \<Rightarrow> server" where
  "menu_finish s = menu_free_from s None"

fun destroy_pipemenus_loop :: "(addr \<times> menu) list \<Rightarrow> server \<Rightarrow> server" where
  "destroy_pipemenus_loop [] s = s"
| "destroy_pipemenus_loop ((a, iter) # ms) s =
     destroy_pipemenus_loop ms (if is_pipemenu iter then menu_free a s else s)"

definition destroy_pipemenus :: "server \<Rightarrow> server" where
  "destroy_pipemenus s =
     (let s1 = log_msg WLR_DEBUG ''number of menus before close=%d'' [I (int (length (menus s)))] s;
          s2 = destroy_pipemenus_loop (menus s1) s1
      in log_msg WLR_DEBUG ''number of menus after  close=%d'' [I (int (length (menus s2)))] s2)"

subsection \<open>Selection and closing\<close>

text \<open>
  \<^verbatim>\<open>menu_set_selection\<close>: the old and the new selected item are dereferenced, and a
  separator has no selected state to enable.
\<close>

definition menu_set_selection :: "addr \<Rightarrow> addr option \<Rightarrow> server \<Rightarrow> server option" where
  "menu_set_selection m item s =
     (case lookup_menu s m of
        None \<Rightarrow> None
      | Some M \<Rightarrow>
          do {
            s1 \<leftarrow> (case selection_item M of
                     None \<Rightarrow> Some s
                   | Some old \<Rightarrow>
                       (case lookup_item s old of
                          None \<Rightarrow> None
                        | Some old_it \<Rightarrow>
                            if is_separator old_it then None
                            else Some (update_item old
                                   (\<lambda>x. x\<lparr>normal_enabled := True, selected_enabled := False\<rparr>) s)));
            s2 \<leftarrow> (case item of
                     None \<Rightarrow> Some s1
                   | Some i \<Rightarrow>
                       (case lookup_item s1 i of
                          None \<Rightarrow> None
                        | Some n \<Rightarrow>
                            if is_separator n then None
                            else Some (update_item i
                                   (\<lambda>x. x\<lparr>normal_enabled := False, selected_enabled := True\<rparr>) s1)));
            Some (update_menu m (\<lambda>M'. M'\<lparr>selection_item := item\<rparr>) s2)
          })"

function close_all_submenus :: "nat \<Rightarrow> addr \<Rightarrow> server \<Rightarrow> server option"
  and close_all_submenus_items :: "nat \<Rightarrow> (addr \<times> menuitem) list \<Rightarrow> server \<Rightarrow> server option"
where
  "close_all_submenus 0 m s = None"
| "close_all_submenus (Suc k) m s =
     (case lookup_menu s m of
        None \<Rightarrow> None
      | Some M \<Rightarrow>
          (case close_all_submenus_items k (menuitems M) s of
             None \<Rightarrow> None
           | Some s1 \<Rightarrow> Some (update_menu m (\<lambda>M'. M'\<lparr>selection_menu := None\<rparr>) s1)))"
| "close_all_submenus_items k [] s = Some s"
| "close_all_submenus_items k ((a, it) # its) s =
     (case submenu it of
        None \<Rightarrow> close_all_submenus_items k its s
      | Some sub \<Rightarrow>
          (case lookup_menu s sub of
             None \<Rightarrow> None
           | Some _ \<Rightarrow>
               (case close_all_submenus k sub
                       (update_menu sub (\<lambda>M'. M'\<lparr>scene_enabled := False\<rparr>) s) of
                  None \<Rightarrow> None
                | Some s1 \<Rightarrow> close_all_submenus_items k its s1)))"
  by pat_completeness auto
termination
  by (relation "inv_image (less_than <*lex*> less_than) (\<lambda>x. case x of
        Inl (k, m, s) \<Rightarrow> (2 * k, 0)
      | Inr (k, its, s) \<Rightarrow> (2 * k + 1, length its))")
    auto

text \<open>
  \<^verbatim>\<open>_close\<close> follows \<^verbatim>\<open>menu->selection.menu\<close>; the first argument bounds the depth of
  the recursion as above.
\<close>

fun close_rec :: "nat \<Rightarrow> addr \<Rightarrow> server \<Rightarrow> server option" where
  "close_rec 0 m s = None"
| "close_rec (Suc k) m s =
     (case lookup_menu s m of
        None \<Rightarrow> None
      | Some _ \<Rightarrow>
          (case menu_set_selection m None (update_menu m (\<lambda>M'. M'\<lparr>scene_enabled := False\<rparr>) s) of
             None \<Rightarrow> None
           | Some s1 \<Rightarrow>
               (case lookup_menu s1 m of
                  None \<Rightarrow> None
                | Some M1 \<Rightarrow>
                    (case selection_menu M1 of
                       None \<Rightarrow> Some s1
                     | Some c \<Rightarrow>
                         (case close_rec k c s1 of
                            None \<Rightarrow> None
                          | Some s2 \<Rightarrow>
                              Some (update_menu m (\<lambda>M'. M'\<lparr>selection_menu := None\<rparr>) s2))))))"

definition menu_close :: "nat \<Rightarrow> addr option \<Rightarrow> server \<Rightarrow> server option" where
  "menu_close k menu s =
     (case menu of
        None \<Rightarrow> Some (log_msg WLR_ERROR ''Trying to close non exiting menu'' [] s)
      | Some m \<Rightarrow> close_rec k m s)"

definition menu_open_root :: "env \<Rightarrow> nat \<Rightarrow> addr \<Rightarrow> int \<Rightarrow> int \<Rightarrow> server \<Rightarrow> server option" where
  "menu_open_root E k m x y s =
     (case lookup_menu s m of
        None \<Rightarrow> None
      | Some _ \<Rightarrow>
          do {
            s1 \<leftarrow> (case menu_current s of
                     None \<Rightarrow> Some s
                   | Some cur \<Rightarrow> map_option destroy_pipemenus (menu_close k (Some cur) s));
            s2 \<leftarrow> close_all_submenus k m s1;
            s3 \<leftarrow> menu_set_selection m None s2;
            s4 \<leftarrow> menu_configure E k m x y LAB_MENU_OPEN_AUTO s3;
            _ \<leftarrow> lookup_menu s4 m;
            Some ((update_menu m (\<lambda>M'. M'\<lparr>scene_enabled := True\<rparr>) s4)
                    \<lparr>menu_current := Some m, input_mode := LAB_INPUT_STATE_MENU,
                     selected_item := None\<rparr>)
          })"

subsection \<open>Pipe menus\<close>

definition lookup_ctx :: "server \<Rightarrow> addr \<Rightarrow> pipe_context option" where
  "lookup_ctx s c = map_of (pipe_ctxs s) c"

text \<open>
  \<^verbatim>\<open>create_pipe_menu\<close>, for the context at address \<open>c\<close>. The item of the context, its
  parent menu and its id are dereferenced as in the source.
\<close>

definition create_pipe_menu :: "env \<Rightarrow> nat \<Rightarrow> addr \<Rightarrow> server \<Rightarrow> server option" where
  "create_pipe_menu E k c s =
     do {
       ctx \<leftarrow> lookup_ctx s c;
       it \<leftarrow> lookup_item s (ctx_item ctx);
       let pipe_parent = item_parent it;
       P \<leftarrow> lookup_menu s pipe_parent;
       if \<not> scene_enabled P then
         Some (log_msg WLR_ERROR ''[pipemenu %ld] parent menu already closed'' [I (ctx_pid ctx)] s)
       else
         do {
           i \<leftarrow> item_id it;
           let (pipe_menu, s1) = menu_create s i None;
           let s2 = update_menu pipe_menu
                      (\<lambda>M. M\<lparr>is_pipemenu := True, triggered_by_view := triggered_by_view P,
                              parent := Some pipe_parent\<rparr>) s1;
           let s3 = s2\<lparr>menu_level := cadd (menu_level s2) 1, current_menu := Some pipe_menu\<rparr>;
           (ok, s4) \<leftarrow> parse_buf E (ctx_buf ctx) s3;
           s5 \<leftarrow>
             (if \<not> ok then
                (case lookup_item (menu_free pipe_menu s4) (ctx_item ctx) of
                   None \<Rightarrow> None
                 | Some _ \<Rightarrow>
                     Some (update_item (ctx_item ctx) (\<lambda>x. x\<lparr>submenu := None\<rparr>)
                             (menu_free pipe_menu s4)))
              else
                do {
                  _ \<leftarrow> lookup_item s4 (ctx_item ctx);
                  let t1 = post_processing
                             (update_item (ctx_item ctx) (\<lambda>x. x\<lparr>submenu := Some pipe_menu\<rparr>) s4);
                  it1 \<leftarrow> lookup_item t1 (ctx_item ctx);
                  IP \<leftarrow> lookup_menu t1 (item_parent it1);
                  P1 \<leftarrow> lookup_menu t1 pipe_parent;
                  let al = align IP;
                  let x = (if al AND LAB_MENU_OPEN_RIGHT \<noteq> 0
                           then cadd (scene_x P1) (size_width P1) else scene_x P1);
                  let y = cadd (scene_y P1) (node_y it1);
                  t2 \<leftarrow> menu_configure E k pipe_menu x y al t1;
                  let t3 = validate E t2;
                  _ \<leftarrow> lookup_menu t3 pipe_menu;
                  _ \<leftarrow> lookup_menu t3 pipe_parent;
                  Some (update_menu pipe_parent (\<lambda>M. M\<lparr>selection_menu := Some pipe_menu\<rparr>)
                          (update_menu pipe_menu (\<lambda>M. M\<lparr>scene_enabled := True\<rparr>) t3))
                });
           Some (s5\<lparr>current_menu := Some pipe_parent, menu_level := csub (menu_level s5) 1\<rparr>)
         }
     }"

text \<open>
  \<^verbatim>\<open>pipemenu_ctx_destroy\<close>: both event sources are removed, so the event loop holds the
  context no longer; the subprocess and its pipe are released.
\<close>

definition pipemenu_ctx_destroy :: "addr \<Rightarrow> server \<Rightarrow> server option" where
  "pipemenu_ctx_destroy c s =
     (case lookup_ctx s c of
        None \<Rightarrow> None
      | Some ctx \<Rightarrow>
          Some (s\<lparr>pipe_ctxs := filter (\<lambda>(a, x). a \<noteq> c) (pipe_ctxs s),
                  closed_pipes := closed_pipes s @ [(ctx_pid ctx, ctx_pipe_fd ctx)],
                  waiting_for_pipe_menu := False\<rparr>))"

definition kill :: "int \<Rightarrow> signal \<Rightarrow> server \<Rightarrow> server" where
  "kill pid sig s = s\<lparr>kills := kills s @ [(pid, sig)]\<rparr>"

definition item_execute_arg :: "server \<Rightarrow> addr \<Rightarrow> log_arg option" where
  "item_execute_arg s item =
     map_option (\<lambda>it. S (case execute it of Some e \<Rightarrow> e | None \<Rightarrow> ''(null)'')) (lookup_item s item)"

definition handle_pipemenu_timeout :: "addr \<Rightarrow> server \<Rightarrow> server option" where
  "handle_pipemenu_timeout c s =
     do {
       ctx \<leftarrow> lookup_ctx s c;
       e \<leftarrow> item_execute_arg s (ctx_item ctx);
       pipemenu_ctx_destroy c
         (kill (ctx_pid ctx) SIGTERM
            (log_msg WLR_ERROR ''[pipemenu %ld] timeout reached, killing %s'' [I (ctx_pid ctx), e] s))
     }"

definition starts_with_less_than :: "string \<Rightarrow> bool" where
  "starts_with_less_than s =
     (case dropWhile (\<lambda>c. c = CHR '' '' \<or> c = CHR 0x09 \<or> c = CHR 0x0D \<or> c = CHR 0x0A) s of
        [] \<Rightarrow> False
      | c # cs \<Rightarrow> c = CHR ''<'')"

text \<open>
  The outcome of the \<^verbatim>\<open>read\<close> loop of \<^verbatim>\<open>handle_pipemenu_readable\<close>: an error other than
  EINTR, or the bytes read (none at the end of the stream).
\<close>

datatype read_result = ReadError | ReadBytes string

text \<open>
  \<^verbatim>\<open>buf_add\<close> (common/buf.c) appends a C string: the chunk up to its first NUL byte.
\<close>

definition buf_add :: "string \<Rightarrow> string \<Rightarrow> string" where
  "buf_add buf data = buf @ takeWhile (\<lambda>c. c \<noteq> CHR 0x00) data"

definition handle_pipemenu_readable :: "env \<Rightarrow> nat \<Rightarrow> addr \<Rightarrow> read_result \<Rightarrow> server \<Rightarrow> server option" where
  "handle_pipemenu_readable E k c r s =
     do {
       ctx \<leftarrow> lookup_ctx s c;
       (case r of
          ReadError \<Rightarrow>
            do {
              e \<leftarrow> item_execute_arg s (ctx_item ctx);
              pipemenu_ctx_destroy c
                (log_msg WLR_ERROR ''[pipemenu %ld] failed to read data (%s)'' [I (ctx_pid ctx), e] s)
            }
        | ReadBytes data \<Rightarrow>
            if int (length (ctx_buf ctx)) + int (length data) > PIPEMENU_MAX_BUF_SIZE then
              do {
                e \<leftarrow> item_execute_arg s (ctx_item ctx);
                pipemenu_ctx_destroy c
                  (kill (ctx_pid ctx) SIGTERM
                     (log_msg WLR_ERROR ''[pipemenu %ld] too big (> %d bytes); killing %s''
                        [I (ctx_pid ctx), I PIPEMENU_MAX_BUF_SIZE, e] s))
              }
            else
              let s1 = log_msg WLR_DEBUG ''[pipemenu %ld] read %ld bytes of data''
                         [I (ctx_pid ctx), I (int (length data))] s
              in if data \<noteq> [] then
                   Some (s1\<lparr>pipe_ctxs := update_at c
                           (\<lambda>x. x\<lparr>ctx_buf := buf_add (ctx_buf x) data\<rparr>) (pipe_ctxs s1)\<rparr>)
                 else if \<not> starts_with_less_than (ctx_buf ctx) then
                   pipemenu_ctx_destroy c
                     (log_msg WLR_ERROR ''expect xml data to start with '<'; abort pipemenu'' [] s1)
                 else
                   do {
                     s2 \<leftarrow> create_pipe_menu E k c s1;
                     pipemenu_ctx_destroy c s2
                   })
     }"

text \<open>
  \<^verbatim>\<open>parse_pipemenu\<close>: \<open>sp\<close> is what \<^verbatim>\<open>spawn_piped\<close> returns for the item's command, the
  process id and the descriptor of the pipe.
\<close>

definition parse_pipemenu :: "int \<times> int \<Rightarrow> addr \<Rightarrow> server \<Rightarrow> server option" where
  "parse_pipemenu sp item s =
     do {
       it \<leftarrow> lookup_item s item;
       i \<leftarrow> item_id it;
       e \<leftarrow> execute it;
       if \<not> is_unique_id s i then
         Some (log_msg WLR_ERROR ''duplicate id '%s'; abort pipemenu'' [S i] s)
       else
         let (pid, pipe_fd) = sp
         in if pid \<le> 0 then
              Some (log_msg WLR_ERROR ''Failed to spawn pipe menu process %s'' [S e] s)
            else
              let (c, s1) = znew (s\<lparr>waiting_for_pipe_menu := True\<rparr>);
                  ctx = \<lparr>ctx_item = item, ctx_buf = [], ctx_pid = pid, ctx_pipe_fd = pipe_fd\<rparr>
              in Some (log_msg WLR_DEBUG ''[pipemenu %ld] executed: %s'' [I pid, S e]
                         (s1\<lparr>pipe_ctxs := pipe_ctxs s1 @ [(c, ctx)]\<rparr>))
     }"

definition menu_process_item_selection :: "nat \<Rightarrow> int \<times> int \<Rightarrow> addr \<Rightarrow> server \<Rightarrow> server option" where
  "menu_process_item_selection k sp item s =
     (if Some item = selected_item s then Some s
      else if waiting_for_pipe_menu s then Some s
      else
        let s1 = s\<lparr>selected_item := Some item\<rparr>
        in case lookup_item s1 item of
             None \<Rightarrow> None
           | Some it \<Rightarrow>
               if \<not> selectable it then Some s1
               else
                 do {
                   s2 \<leftarrow> menu_set_selection (item_parent it) (Some item) s1;
                   P \<leftarrow> lookup_menu s2 (item_parent it);
                   s3 \<leftarrow> (case selection_menu P of
                            None \<Rightarrow> Some s2
                          | Some old \<Rightarrow> menu_close k (Some old) s2);
                   it3 \<leftarrow> lookup_item s3 item;
                   if execute it3 \<noteq> None \<and> submenu it3 = None then parse_pipemenu sp item s3
                   else
                     do {
                       s4 \<leftarrow> (case submenu it3 of
                                None \<Rightarrow> Some s3
                              | Some sub \<Rightarrow>
                                  do {
                                    _ \<leftarrow> lookup_menu s3 sub;
                                    P3 \<leftarrow> lookup_menu s3 (item_parent it3);
                                    Some (update_menu sub
                                      (\<lambda>M. M\<lparr>triggered_by_view := triggered_by_view P3,
                                              parent := Some (item_parent it3),
                                              scene_enabled := True\<rparr>) s3)
                                  });
                       _ \<leftarrow> lookup_menu s4 (item_parent it3);
                       Some (update_menu (item_parent it3)
                               (\<lambda>M. M\<lparr>selection_menu := submenu it3\<rparr>) s4)
                     }
                 })"

definition menu_process_cursor_motion :: "nat \<Rightarrow> int \<times> int \<Rightarrow> addr \<Rightarrow> server \<Rightarrow> server option" where
  "menu_process_cursor_motion k sp item s = menu_process_item_selection k sp item s"

definition menu_close_root :: "nat \<Rightarrow> server \<Rightarrow> server option" where
  "menu_close_root k s =
     (if input_mode s \<noteq> LAB_INPUT_STATE_MENU then None
      else
        do {
          s1 \<leftarrow> (case menu_current s of
                   None \<Rightarrow> Some s
                 | Some cur \<Rightarrow>
                     map_option (\<lambda>t. destroy_pipemenus (t\<lparr>menu_current := None\<rparr>))
                       (menu_close k (Some cur) s));
          Some (s1\<lparr>input_mode := LAB_INPUT_STATE_PASSTHROUGH\<rparr>)
        })"

definition menu_reconfigure :: "env \<Rightarrow> server \<Rightarrow> server option" where
  "menu_reconfigure E s = menu_init E ((menu_finish s)\<lparr>menu_current := None\<rparr>)"

subsection \<open>Properties of the registry and of the layout\<close>

definition menu_ids :: "server \<Rightarrow> string list" where
  "menu_ids s = map (\<lambda>(a, M). menu_id M) (menus s)"

definition menu_addrs :: "server \<Rightarrow> addr list" where
  "menu_addrs s = map fst (menus s)"

text \<open>
  The allocator's guarantee on the live menus: no two at one address, all below the next
  address \<^verbatim>\<open>znew\<close> hands out.
\<close>

definition heap_ok :: "server \<Rightarrow> bool" where
  "heap_ok s = (distinct (menu_addrs s) \<and> list_all (\<lambda>a. a < heap_next s) (menu_addrs s))"

definition item_heights :: "(addr \<times> menuitem) list \<Rightarrow> int list" where
  "item_heights its = map (\<lambda>(a, it). height it) its"

text \<open>
  The layout of one menu as its \<^verbatim>\<open>int\<close> fields hold it: the height is the sum of the
  heights of the items, and every item sits below the items before it, each sum as a
  32-bit \<^verbatim>\<open>int\<close> holds it.
\<close>

definition menu_layout_ok :: "menu \<Rightarrow> bool" where
  "menu_layout_ok M =
     (size_height M = cint (sum_list (item_heights (menuitems M))) \<and>
      (\<forall>k < length (menuitems M).
         node_y (snd (menuitems M ! k)) = cint (sum_list (item_heights (take k (menuitems M))))))"

text \<open>
  No sum of the heights of the first \<open>k\<close> items of the menu is beyond the range of an
  \<^verbatim>\<open>int\<close>.
\<close>

definition heights_fit :: "menu \<Rightarrow> bool" where
  "heights_fit M =
     list_all (\<lambda>k. in_int_range (sum_list (item_heights (take k (menuitems M)))))
       [0 ..< Suc (length (menuitems M))]"

text \<open>
  The operations that create menus and create or remove items: \<^verbatim>\<open>menu_create\<close>,
  \<^verbatim>\<open>item_create\<close>, \<^verbatim>\<open>separator_create\<close>, the assignment \<^verbatim>\<open>item->submenu = menu\<close>
  that follows the creation of a submenu item, and \<^verbatim>\<open>menu_hide_submenu\<close>, which removes
  items.
\<close>

datatype menu_op =
  MenuCreate string "string option"
| ItemCreate "addr option" "string option" bool
| SeparatorCreate "addr option" "string option"
| ItemSetSubmenu addr addr
| MenuHideSubmenu string

fun menu_op_step :: "env \<Rightarrow> menu_op \<Rightarrow> server \<Rightarrow> server option" where
  "menu_op_step E (MenuCreate i lbl) s = Some (snd (menu_create s i lbl))"
| "menu_op_step E (ItemCreate m txt show_arrow) s = map_option snd (item_create E m txt show_arrow s)"
| "menu_op_step E (SeparatorCreate m lbl) s = map_option snd (separator_create m lbl s)"
| "menu_op_step E (ItemSetSubmenu it m) s = Some (update_item it (\<lambda>x. x\<lparr>submenu := Some m\<rparr>) s)"
| "menu_op_step E (MenuHideSubmenu i) s = Some (menu_hide_submenu s i)"

fun menu_ops_run :: "env \<Rightarrow> menu_op list \<Rightarrow> server \<Rightarrow> server option" where
  "menu_ops_run E [] s = Some s"
| "menu_ops_run E (x # xs) s =
     (case menu_op_step E x s of None \<Rightarrow> None | Some s1 \<Rightarrow> menu_ops_run E xs s1)"

text \<open>
  A live menu refers to the address \<open>m\<close>: it has \<open>m\<close> as its parent, or one of its items
  has \<open>m\<close> as its submenu.
\<close>

definition all_layout_ok :: "server \<Rightarrow> bool" where
  "all_layout_ok s = list_all (\<lambda>(a, M). menu_layout_ok M) (menus s)"

definition refers_to :: "addr \<Rightarrow> menu \<Rightarrow> bool" where
  "refers_to m M =
     (parent M = Some m \<or> list_ex (\<lambda>(b, it). submenu it = Some m) (menuitems M))"

definition unreferenced :: "addr \<Rightarrow> server \<Rightarrow> bool" where
  "unreferenced m s = list_all (\<lambda>(a, M). \<not> refers_to m M) (menus s)"

text \<open>
  The closed form of the width the specification gives: the widest natural width,
  clamped to the maximum, and not below the minimum; a second reading clamps last.
\<close>

definition widest_native_width :: "menu \<Rightarrow> int" where
  "widest_native_width M = Max (set (map (\<lambda>(a, it). native_width it) (menuitems M)))"

definition spec_width :: "theme \<Rightarrow> menu \<Rightarrow> int" where
  "spec_width th M =
     max (menu_min_width th) (min (widest_native_width M) (menu_max_width th))
       + 2 * menu_item_padding_x th"

definition spec_width_clamped_last :: "theme \<Rightarrow> menu \<Rightarrow> int" where
  "spec_width_clamped_last th M =
     min (max (menu_min_width th) (widest_native_width M)) (menu_max_width th)
       + 2 * menu_item_padding_x th"

subsection \<open>Concrete states\<close>

definition example_theme :: theme where
  "example_theme =
     \<lparr>menu_min_width = 20, menu_max_width = 200, menu_item_padding_x = 7,
      menu_item_padding_y = 4, menu_overlap_x = 0, menu_overlap_y = 0,
      menu_separator_line_thickness = 1, menu_separator_padding_width = 6,
      menu_separator_padding_height = 3\<rparr>"

text \<open>The state at program start: no menu, the file-scope variables zeroed.\<close>

definition initial_server :: "theme \<Rightarrow> server" where
  "initial_server th =
     \<lparr>menus = [], theme = th, menu_current = None, input_mode = LAB_INPUT_STATE_PASSTHROUGH,
      in_item = False, current_item = None, current_item_action = None, menu_level = 0,
      current_menu = None, waiting_for_pipe_menu = False, selected_item = None,
      pipe_ctxs = [], kills = [], closed_pipes = [], wlr_log = [], heap_next = 1\<rparr>"

definition example_output :: lab_output where
  "example_output = \<lparr>output_x = 0, output_y = 0, usable_area_width = 1920, usable_area_height = 1080\<rparr>"

text \<open>
  An environment for concrete runs: a fixed-width font, an action engine that accepts
  every action, one output, and a parser that yields the given document for every
  buffer.
\<close>

definition example_env :: "xmlNode list option \<Rightarrow> (string \<times> string option) list \<Rightarrow> env" where
  "example_env d files =
     \<lparr>font_width = (\<lambda>t. 8 * int (length t)), font_height = 16,
      scaled_font_buffer_create = (\<lambda>a. True),
      action_create = (\<lambda>n. Some \<lparr>action_name = n, action_args = []\<rparr>),
      action_arg_from_xml_node = (\<lambda>a n c. a\<lparr>action_args := action_args a @ [(n, c)]\<rparr>),
      action_is_valid = (\<lambda>a. True),
      xmlParseMemory = (\<lambda>b. d),
      output_at = (\<lambda>x y. if 0 \<le> x \<and> x < 1920 \<and> 0 \<le> y \<and> y < 1080 then Some example_output else None),
      nr_workspaces = 4, merge_config = False, menu_xml_files = files\<rparr>"

definition xml_text :: "string \<Rightarrow> xmlNode" where
  "xml_text t = XmlNode ''text'' (Some t) [] []"

definition xml_element :: "string \<Rightarrow> (string \<times> string) list \<Rightarrow> xmlNode list \<Rightarrow> xmlNode" where
  "xml_element nm attrs kids = XmlNode nm None (map (\<lambda>(a, v). (a, [xml_text v])) attrs) kids"

text \<open>
  The document
  \<^verbatim>\<open><openbox_menu><menu id="a" label="x"/><menu id="a" label="y"/></openbox_menu>\<close>.
\<close>

definition duplicate_id_doc :: "xmlNode list" where
  "duplicate_id_doc =
     [xml_element ''openbox_menu'' []
        [xml_element ''menu'' [(''id'', ''a''), (''label'', ''x'')] [],
         xml_element ''menu'' [(''id'', ''a''), (''label'', ''y'')] []]]"

text \<open>A theme whose maximal width is below its minimal width, and a menu of one item.\<close>

definition one_item_menu :: "int \<Rightarrow> menu" where
  "one_item_menu w =
     \<lparr>menu_id = ''m'', label = ''m'', parent = None, size_width = 100, size_height = 24,
      item_height = 24,
      menuitems = [(2, \<lparr>item_parent = 1, execute = None, item_id = None, native_width = w,
                        height = 24, selectable = True, submenu = None, actions = [],
                        node_y = 0, normal_enabled = True, selected_enabled = False,
                        is_separator = False, buffer_max_width = None\<rparr>)],
      is_pipemenu = False, align = 0, selection_item = None, selection_menu = None,
      triggered_by_view = None, scene_enabled = False, scene_x = 0, scene_y = 0\<rparr>"

text \<open>
  A run that builds a menu of three items and a separator, one of the items opening a
  second menu, and then hides that second menu.
\<close>

definition example_ops :: "menu_op list" where
  "example_ops =
     [MenuCreate ''root'' None, MenuCreate ''sub'' None,
      ItemCreate (Some 1) (Some ''One'') False,
      ItemCreate (Some 1) (Some ''Sub'') True,
      ItemSetSubmenu 4 2,
      SeparatorCreate (Some 1) None,
      ItemCreate (Some 1) (Some ''Two'') False,
      MenuHideSubmenu ''sub'']"

text \<open>
  A configuration with a pipe-menu item and an inline submenu, and the output of the
  pipe menu's command:
  \<^verbatim>\<open><openbox_menu>
    <menu id="root-menu" label="root">
      <item label="Term"><action name="Execute"><command>xterm</command></action></item>
      <menu id="pipe" label="Pipe" execute="gen"/>
      <separator/>
      <menu id="sub" label="Sub"><item label="A"/></menu>
    </menu>
    <menu id="client-menu" label="client"><item label="Close"><action name="Close"/></item></menu>
  </openbox_menu>\<close>
  and
  \<^verbatim>\<open><openbox_pipe_menu><item label="P1"><action name="Exit"/></item></openbox_pipe_menu>\<close>.
\<close>

definition root_doc :: "xmlNode list" where
  "root_doc =
     [xml_element ''openbox_menu'' []
        [xml_element ''menu'' [(''id'', ''root-menu''), (''label'', ''root'')]
           [xml_element ''item'' [(''label'', ''Term'')]
              [xml_element ''action'' [(''name'', ''Execute'')]
                 [xml_element ''command'' [] [xml_text ''xterm'']]],
            xml_element ''menu'' [(''id'', ''pipe''), (''label'', ''Pipe''), (''execute'', ''gen'')] [],
            xml_element ''separator'' [] [],
            xml_element ''menu'' [(''id'', ''sub''), (''label'', ''Sub'')]
              [xml_element ''item'' [(''label'', ''A'')] []]],
         xml_element ''menu'' [(''id'', ''client-menu''), (''label'', ''client'')]
           [xml_element ''item'' [(''label'', ''Close'')]
              [xml_element ''action'' [(''name'', ''Close'')] []]]]]"

definition pipe_doc :: "xmlNode list" where
  "pipe_doc =
     [xml_element ''openbox_pipe_menu'' []
        [xml_element ''item'' [(''label'', ''P1'')]
           [xml_element ''action'' [(''name'', ''Exit'')] []]]]"

text \<open>
  The environment of the example: the parser yields \<open>root_doc\<close> for the configuration
  file and \<open>pipe_doc\<close> for the text the command prints, and fails on anything else.
\<close>

definition pipe_env :: env where
  "pipe_env =
     (example_env None [(''menu.xml'', Some ''<openbox_menu/>'')])
       \<lparr>xmlParseMemory := (\<lambda>b. if b = ''<openbox_menu/>'' then Some root_doc
                                else if b = ''<openbox_pipe_menu/>'' then Some pipe_doc
                                else None)\<rparr>"

text \<open>
  The states of the example, written out: after \<^verbatim>\<open>menu_init\<close>; with the root menu (at
  address 1) open at (100, 100); with the pipe item (at address 4) selected and its
  command spawned as process 4242, the request context at address 12; with the command's
  output read; and after the end of the stream, the pipe menu at address 13. The
  theorems \<open>built_server_reached\<close> to \<open>spliced_server_reached\<close> below run the
  operations from one state to the next.
\<close>

definition mk_item :: "addr \<Rightarrow> int \<Rightarrow> int \<Rightarrow> int \<Rightarrow> menuitem" where
  "mk_item p w h y =
     \<lparr>item_parent = p, execute = None, item_id = None, native_width = w, height = h,
      selectable = True, submenu = None, actions = [], node_y = y, normal_enabled = True,
      selected_enabled = False, is_separator = False, buffer_max_width = None\<rparr>"

definition mk_menu :: "string \<Rightarrow> string \<Rightarrow> addr option \<Rightarrow> int \<Rightarrow> int \<Rightarrow> (addr \<times> menuitem) list \<Rightarrow> menu" where
  "mk_menu i l p w h its =
     \<lparr>menu_id = i, label = l, parent = p, size_width = w, size_height = h, item_height = 24,
      menuitems = its, is_pipemenu = False, align = 0, selection_item = None,
      selection_menu = None, triggered_by_view = None, scene_enabled = False,
      scene_x = 0, scene_y = 0\<rparr>"

definition root_menu :: "bool \<Rightarrow> addr option \<Rightarrow> menu" where
  "root_menu sel sub =
     mk_menu ''root-menu'' ''root'' None 70 79
       [(2, (mk_item 1 32 24 0)
              \<lparr>actions := [(3, \<lparr>action_name = ''Execute'',
                                action_args = [(''command.action'', ''xterm''),
                                               (''command.action'', ''xterm'')]\<rparr>)]\<rparr>),
        (4, (mk_item 1 56 24 24)
              \<lparr>execute := Some ''gen'', item_id := Some ''pipe'', submenu := sub,
               normal_enabled := \<not> sel, selected_enabled := sel,
               buffer_max_width := Some 56\<rparr>),
        (5, (mk_item 1 0 7 48)\<lparr>selectable := False, is_separator := True\<rparr>),
        (6, (mk_item 1 48 24 55)\<lparr>submenu := Some 7, buffer_max_width := Some 56\<rparr>)]"

definition sub_menu :: menu where
  "sub_menu = mk_menu ''sub'' ''Sub'' (Some 1) 34 24 [(8, mk_item 7 8 24 0)]"

definition client_menu :: menu where
  "client_menu =
     mk_menu ''client-menu'' ''client'' None 54 24
       [(10, (mk_item 9 40 24 0)\<lparr>actions := [(11, \<lparr>action_name = ''Close'', action_args = []\<rparr>)]\<rparr>)]"

definition pipe_menu_built :: menu where
  "pipe_menu_built =
     (mk_menu ''pipe'' ''pipe'' (Some 1) 34 24
        [(14, (mk_item 13 16 24 0)\<lparr>actions := [(15, \<lparr>action_name = ''Exit'', action_args = []\<rparr>)]\<rparr>)])
       \<lparr>is_pipemenu := True, align := 10, scene_enabled := True, scene_x := 170, scene_y := 124\<rparr>"

definition built_server :: server where
  "built_server =
     (initial_server example_theme)
       \<lparr>menus := [(1, root_menu False None), (7, sub_menu), (9, client_menu)],
        current_item := Some 10, current_item_action := Some 11,
        wlr_log := [(WLR_INFO, ''read menu file %s'', [S ''menu.xml'']),
                    (WLR_DEBUG, ''pipemenu '%s:%s:%s'' @ [CHR 0x27], [S ''pipe'', S ''Pipe'', S ''gen''])],
        heap_next := 12\<rparr>"

definition opened_server :: server where
  "opened_server =
     built_server
       \<lparr>menus := [(1, (root_menu False None)
                          \<lparr>align := 10, scene_enabled := True, scene_x := 100, scene_y := 100\<rparr>),
                   (7, sub_menu\<lparr>align := 10, scene_x := 170, scene_y := 155\<rparr>),
                   (9, client_menu)],
        menu_current := Some 1, input_mode := LAB_INPUT_STATE_MENU\<rparr>"

definition waiting_server :: server where
  "waiting_server =
     opened_server
       \<lparr>menus := [(1, (root_menu True None)
                          \<lparr>align := 10, selection_item := Some 4, scene_enabled := True,
                           scene_x := 100, scene_y := 100\<rparr>),
                   (7, sub_menu\<lparr>align := 10, scene_x := 170, scene_y := 155\<rparr>),
                   (9, client_menu)],
        waiting_for_pipe_menu := True, selected_item := Some 4,
        pipe_ctxs := [(12, \<lparr>ctx_item = 4, ctx_buf = [], ctx_pid = 4242, ctx_pipe_fd = 7\<rparr>)],
        wlr_log := wlr_log opened_server
                   @ [(WLR_DEBUG, ''[pipemenu %ld] executed: %s'', [I 4242, S ''gen''])],
        heap_next := 13\<rparr>"

definition streaming_server :: server where
  "streaming_server =
     waiting_server
       \<lparr>pipe_ctxs := [(12, \<lparr>ctx_item = 4, ctx_buf = ''<openbox_pipe_menu/>'', ctx_pid = 4242,
                            ctx_pipe_fd = 7\<rparr>)],
        wlr_log := wlr_log waiting_server
                   @ [(WLR_DEBUG, ''[pipemenu %ld] read %ld bytes of data'', [I 4242, I 20])]\<rparr>"

definition spliced_server :: server where
  "spliced_server =
     streaming_server
       \<lparr>menus := [(1, (root_menu True (Some 13))
                          \<lparr>align := 10, selection_item := Some 4, selection_menu := Some 13,
                           scene_enabled := True, scene_x := 100, scene_y := 100\<rparr>),
                   (7, sub_menu\<lparr>align := 10, scene_x := 170, scene_y := 155\<rparr>),
                   (9, client_menu),
                   (13, pipe_menu_built)],
        current_item := Some 14, current_item_action := Some 15, current_menu := Some 1,
        waiting_for_pipe_menu := False, pipe_ctxs := [], closed_pipes := [(4242, 7)],
        wlr_log := wlr_log streaming_server
                   @ [(WLR_DEBUG, ''[pipemenu %ld] read %ld bytes of data'', [I 4242, I 0])],
        heap_next := 16\<rparr>"

subsection \<open>What building, laying out and closing menus leave alone\<close>

text \<open>
  The part of the state outside the menus, the allocator, the log and the file-scope
  cursors of the parser: the theme, the active menu, the input mode, the pending
  pipe-menu flag, the last-selected item, the registered request contexts, the signals
  sent and the pipes closed.
\<close>

definition framed ::
  "server \<Rightarrow> theme \<times> addr option \<times> input_mode \<times> bool \<times> addr option \<times>
     (addr \<times> pipe_context) list \<times> (int \<times> signal) list \<times> (int \<times> int) list" where
  "framed s =
     (theme s, menu_current s, input_mode s, waiting_for_pipe_menu s, selected_item s,
      pipe_ctxs s, kills s, closed_pipes s)"

subsection \<open>The events that drive the pipe-menu protocol\<close>

text \<open>
  The entry points the input layer and the event loop call, as events: pointer motion over
  an item (every keyboard navigation function ends in the same
  \<^verbatim>\<open>menu_process_item_selection\<close>), the two callbacks of a registered request context,
  opening and closing the root menu, and \<^verbatim>\<open>menu_reconfigure\<close>. An event carries what the
  environment decides: the outcome of \<^verbatim>\<open>spawn_piped\<close> and of \<^verbatim>\<open>read\<close>, and the bound on
  the depth of the recursions.
\<close>

datatype event =
  CursorMotion nat "int \<times> int" addr
| PipeReadable nat addr read_result
| PipeTimeout addr
| OpenRoot nat addr int int
| CloseRoot nat
| Reconfigure

fun handle_event :: "env \<Rightarrow> event \<Rightarrow> server \<Rightarrow> server option" where
  "handle_event E (CursorMotion k sp item) s = menu_process_cursor_motion k sp item s"
| "handle_event E (PipeReadable k c r) s = handle_pipemenu_readable E k c r s"
| "handle_event E (PipeTimeout c) s = handle_pipemenu_timeout c s"
| "handle_event E (OpenRoot k m x y) s = menu_open_root E k m x y s"
| "handle_event E (CloseRoot k) s = menu_close_root k s"
| "handle_event E Reconfigure s = menu_reconfigure E s"

fun run_events :: "env \<Rightarrow> event list \<Rightarrow> server \<Rightarrow> server option" where
  "run_events E [] s = Some s"
| "run_events E (e # es) s =
     (case handle_event E e s of None \<Rightarrow> None | Some s1 \<Rightarrow> run_events E es s1)"

text \<open>
  The pipe-menu protocol is consistent: the pending flag is set exactly while a request
  context is registered, there is at most one, and its buffer is within the limit.
\<close>

definition pipe_consistent :: "server \<Rightarrow> bool" where
  "pipe_consistent s =
     ((waiting_for_pipe_menu s \<longleftrightarrow> pipe_ctxs s \<noteq> []) \<and> length (pipe_ctxs s) \<le> 1 \<and>
      list_all (\<lambda>(c, ctx). int (length (ctx_buf ctx)) \<le> PIPEMENU_MAX_BUF_SIZE) (pipe_ctxs s))"

text \<open>The blanks \<^verbatim>\<open>starts_with_less_than\<close> skips.\<close>

definition blank_chars :: "char set" where
  "blank_chars = {CHR '' '', CHR 0x09, CHR 0x0D, CHR 0x0A}"


section \<open>Lemmas\<close>

subsection \<open>C integers\<close>

lemma cint_id: "in_int_range x \<Longrightarrow> cint x = x"
  by (simp add: cint_def in_int_range_def INT_MIN_def INT_MAX_def)

lemma cint_range: "in_int_range (cint x)"
proof -
  have "0 \<le> (x + 2147483648) mod 4294967296" "(x + 2147483648) mod 4294967296 < 4294967296"
    by simp_all
  then show ?thesis
    unfolding cint_def in_int_range_def INT_MIN_def INT_MAX_def by linarith
qed

lemma cint_0 [simp]: "cint 0 = 0"
  by (simp add: cint_def)

lemma cint_add_left: "cint (cint a + b) = cint (a + b)"
proof -
  have e: "a + 2147483648 + b = a + b + 2147483648" by simp
  have "(cint a + b + 2147483648) mod 4294967296 =
        ((a + 2147483648) mod 4294967296 + b) mod 4294967296"
    by (simp add: cint_def)
  also have "\<dots> = (a + 2147483648 + b) mod 4294967296"
    by (rule mod_add_left_eq)
  finally have "(cint a + b + 2147483648) mod 4294967296 = (a + b + 2147483648) mod 4294967296"
    unfolding e .
  then show ?thesis unfolding cint_def [of "cint a + b"] cint_def [of "a + b"] by simp
qed

lemma cint_add_right: "cint (a + cint b) = cint (a + b)"
  using cint_add_left [of b a] by (simp add: add.commute)

lemma cint_cint [simp]: "cint (cint a) = cint a"
  using cint_add_left [of a 0] by simp

lemma cadd_cint_left: "cadd (cint a) b = cint (a + b)"
  by (simp add: cadd_def cint_add_left)

lemma cadd_exact: "in_int_range (a + b) \<Longrightarrow> cadd a b = a + b"
  by (simp add: cadd_def cint_id)


subsection \<open>Updates by address, the layout of a menu\<close>

lemma all_layout_ok_iff: "all_layout_ok s = (\<forall>(a, M) \<in> set (menus s). menu_layout_ok M)"
  by (simp add: all_layout_ok_def list_all_iff)

lemma length_update_at [simp]: "length (update_at p f xs) = length xs"
  by (simp add: update_at_def)

lemma menu_addrs_update_menu [simp]: "menu_addrs (update_menu m f s) = menu_addrs s"
  by (auto simp: menu_addrs_def update_menu_def update_at_def)

lemma menu_layout_ok_empty:
  "size_height M = 0 \<Longrightarrow> menuitems M = [] \<Longrightarrow> menu_layout_ok M"
  by (simp add: menu_layout_ok_def item_heights_def)

lemma menu_layout_ok_append:
  assumes ok: "menu_layout_ok M"
    and y: "node_y it = size_height M"
  shows "menu_layout_ok (M\<lparr>size_height := cadd (size_height M) (height it),
                            menuitems := menuitems M @ [(a, it)]\<rparr>)"
proof -
  have h: "size_height M = cint (sum_list (item_heights (menuitems M)))"
    and p: "\<And>k. k < length (menuitems M) \<Longrightarrow>
              node_y (snd (menuitems M ! k)) = cint (sum_list (item_heights (take k (menuitems M))))"
    using ok by (auto simp: menu_layout_ok_def)
  have "node_y (snd ((menuitems M @ [(a, it)]) ! k)) =
          cint (sum_list (item_heights (take k (menuitems M @ [(a, it)]))))"
    if "k < Suc (length (menuitems M))" for k
  proof (cases "k < length (menuitems M)")
    case True
    then show ?thesis using p [OF True] by (simp add: nth_append)
  next
    case False
    with that have "k = length (menuitems M)" by simp
    then show ?thesis using y h by (simp add: nth_append)
  qed
  moreover have "cadd (size_height M) (height it) =
                 cint (sum_list (item_heights (menuitems M @ [(a, it)])))"
    unfolding h cadd_cint_left by (simp add: item_heights_def)
  ultimately show ?thesis by (simp add: menu_layout_ok_def)
qed

lemma reposition_items_spec:
  "reposition_items its (cint h) = (its', h') \<Longrightarrow>
   h' = cint (h + sum_list (item_heights its)) \<and> length its' = length its \<and>
   item_heights its' = item_heights its \<and>
   (\<forall>k < length its. node_y (snd (its' ! k)) = cint (h + sum_list (item_heights (take k its))))"
proof (induction its arbitrary: h its' h')
  case Nil
  then show ?case by (simp add: item_heights_def)
next
  case (Cons x xs)
  obtain a it where x: "x = (a, it)" by (cases x)
  have c: "cadd (cint h) (height it) = cint (h + height it)" by (rule cadd_cint_left)
  obtain ys g where r: "reposition_items xs (cint (h + height it)) = (ys, g)"
    by (cases "reposition_items xs (cint (h + height it))")
  from Cons.prems x r c have its': "its' = (a, it\<lparr>node_y := cint h\<rparr>) # ys" and h': "h' = g"
    by auto
  from Cons.IH [OF r] have ih:
    "g = cint (h + height it + sum_list (item_heights xs))" "length ys = length xs"
    "item_heights ys = item_heights xs"
    "\<And>k. k < length xs \<Longrightarrow>
        node_y (snd (ys ! k)) = cint (h + height it + sum_list (item_heights (take k xs)))"
    by auto
  have "node_y (snd (its' ! k)) = cint (h + sum_list (item_heights (take k (x # xs))))"
    if "k < length (x # xs)" for k
  proof (cases k)
    case 0
    then show ?thesis using its' by (simp add: item_heights_def)
  next
    case (Suc j)
    with that have "j < length xs" by simp
    from ih(4) [OF this] show ?thesis using Suc its' x
      by (simp add: item_heights_def add.assoc)
  qed
  then show ?case using ih its' h' x by (simp add: item_heights_def add.assoc)
qed

lemma menu_layout_ok_hide: "menu_layout_ok M \<Longrightarrow> menu_layout_ok (menu_hide_submenu_in hide M)"
proof -
  assume ok: "menu_layout_ok M"
  let ?kept = "filter (\<lambda>(a, it). submenu it \<noteq> Some hide) (menuitems M)"
  obtain its' h where r: "reposition_items ?kept 0 = (its', h)"
    by (cases "reposition_items ?kept 0")
  then have "reposition_items ?kept (cint 0) = (its', h)" by simp
  from reposition_items_spec [OF this] have
    h: "h = cint (sum_list (item_heights ?kept))" and len: "length its' = length ?kept"
    and hs: "item_heights its' = item_heights ?kept"
    and ys: "\<And>k. k < length ?kept \<Longrightarrow>
               node_y (snd (its' ! k)) = cint (sum_list (item_heights (take k ?kept)))"
    by auto
  have tk: "item_heights (take k its') = item_heights (take k ?kept)" for k
    using hs by (simp add: item_heights_def take_map [symmetric])
  have "menu_layout_ok (M\<lparr>menuitems := its', size_height := h\<rparr>)"
    unfolding menu_layout_ok_def using h len hs ys tk by simp
  then show ?thesis using ok r by (simp add: menu_hide_submenu_in_def Let_def)
qed



lemma heap_next_update_menu [simp]: "heap_next (update_menu m f s) = heap_next s"
  by (simp add: update_menu_def)

lemma menu_addrs_heap_next [simp]: "menu_addrs (s\<lparr>heap_next := n\<rparr>) = menu_addrs s"
  by (simp add: menu_addrs_def)

lemma menu_addrs_log_msg [simp]: "menu_addrs (log_msg l f a s) = menu_addrs s"
  by (simp add: menu_addrs_def log_msg_def)

lemma heap_next_log_msg [simp]: "heap_next (log_msg l f a s) = heap_next s"
  by (simp add: log_msg_def)

lemma heap_ok_Suc:
  "heap_ok s \<Longrightarrow> menu_addrs s' = menu_addrs s \<Longrightarrow> heap_next s' = Suc (heap_next s) \<Longrightarrow> heap_ok s'"
  by (auto simp: heap_ok_def list_all_iff intro: less_SucI)

lemma heap_ok_menu_create: "heap_ok s \<Longrightarrow> heap_ok (snd (menu_create s i lbl))"
  by (auto simp: heap_ok_def menu_addrs_def menu_create_def znew_def log_msg_def Let_def
        list_all_iff less_SucI)

lemma item_create_addrs:
  "item_create E m t ar s = Some (r, s') \<Longrightarrow>
   menu_addrs s' = menu_addrs s \<and> heap_next s' = Suc (heap_next s)"
  by (auto simp: item_create_def znew_def Let_def split: option.splits if_splits)

lemma separator_create_addrs:
  "separator_create m l s = Some (r, s') \<Longrightarrow>
   menu_addrs s' = menu_addrs s \<and> heap_next s' = Suc (heap_next s)"
  by (auto simp: separator_create_def znew_def Let_def split: option.splits if_splits)

lemma heap_ok_item_create: "heap_ok s \<Longrightarrow> item_create E m t ar s = Some (r, s') \<Longrightarrow> heap_ok s'"
  using heap_ok_Suc item_create_addrs by blast

lemma heap_ok_separator_create: "heap_ok s \<Longrightarrow> separator_create m l s = Some (r, s') \<Longrightarrow> heap_ok s'"
  using heap_ok_Suc separator_create_addrs by blast

lemma heap_ok_menu_hide_submenu: "heap_ok s \<Longrightarrow> heap_ok (menu_hide_submenu s i)"
  by (auto simp: heap_ok_def menu_hide_submenu_def menu_addrs_def comp_def case_prod_unfold
        split: option.splits)


lemma layout_menu_create: "all_layout_ok s \<Longrightarrow> all_layout_ok (snd (menu_create s i lbl))"
  by (auto simp: all_layout_ok_iff menu_create_def znew_def log_msg_def Let_def
        intro: menu_layout_ok_empty)

lemma lookup_menu_unique:
  "heap_ok s \<Longrightarrow> lookup_menu s m = Some M0 \<Longrightarrow> (m, M) \<in> set (menus s) \<Longrightarrow> M = M0"
  by (simp add: heap_ok_def lookup_menu_def menu_addrs_def)

lemma layout_append_item:
  assumes hp: "heap_ok s" and ok: "all_layout_ok s" and lk: "lookup_menu s m = Some M0"
    and y: "node_y it = size_height M0"
    and mn: "menus s1 = menus s"
  shows "all_layout_ok
           (update_menu m (\<lambda>M. M\<lparr>size_height := cadd (size_height M) (height it),
                                   menuitems := menuitems M @ [(a, it)]\<rparr>)
              (update_menu m (\<lambda>M. M\<lparr>item_height := ih\<rparr>) s1))"
proof -
  have g: "menu_layout_ok (M\<lparr>item_height := ih, size_height := cadd (size_height M) (height it),
                              menuitems := menuitems M @ [(a, it)]\<rparr>)"
    if "(m, M) \<in> set (menus s)" for M
  proof -
    have M: "M = M0" using lookup_menu_unique [OF hp lk that] .
    have "menu_layout_ok (M\<lparr>item_height := ih\<rparr>)"
      using ok that by (auto simp: all_layout_ok_iff menu_layout_ok_def)
    from menu_layout_ok_append [OF this, of it a] y M show ?thesis by simp
  qed
  show ?thesis
    unfolding all_layout_ok_iff update_menu_def update_at_def
    using ok g mn by (auto simp: all_layout_ok_iff split: if_splits)
qed

lemma layout_item_height:
  "all_layout_ok s \<Longrightarrow> all_layout_ok (update_menu m (\<lambda>M. M\<lparr>item_height := ih\<rparr>) s)"
  unfolding all_layout_ok_iff update_menu_def update_at_def
  by (auto simp: menu_layout_ok_def split: if_splits)

lemma layout_item_create:
  assumes hp: "heap_ok s" and ok: "all_layout_ok s"
    and r: "item_create E m t ar s = Some (r, s')"
  shows "all_layout_ok s'"
proof -
  from r obtain m' t' M0 where m: "m = Some m'" "t = Some t'" and lk: "lookup_menu s m' = Some M0"
    by (auto simp: item_create_def split: option.splits)
  let ?ih = "if item_height M0 = 0 then cadd (font_height E) (cmul 2 (menu_item_padding_y (theme s)))
             else item_height M0"
  let ?s1 = "s\<lparr>heap_next := Suc (heap_next s)\<rparr>"
  show ?thesis
  proof (cases "scaled_font_buffer_create E (heap_next s)")
    case False
    with r m lk have "menus s' = menus (update_menu m' (\<lambda>M. M\<lparr>item_height := ?ih\<rparr>) ?s1)"
      by (auto simp: item_create_def znew_def Let_def log_msg_def update_menu_def)
    moreover have "all_layout_ok (update_menu m' (\<lambda>M. M\<lparr>item_height := ?ih\<rparr>) ?s1)"
      using ok by (intro layout_item_height) (simp add: all_layout_ok_iff)
    ultimately show ?thesis by (simp add: all_layout_ok_iff)
  next
    case True
    let ?it = "\<lparr>item_parent = m', execute = None, item_id = None,
                 native_width = (if ar then cadd (font_width E t') (font_width E arrow_glyph)
                                 else font_width E t'),
                 height = ?ih, selectable = True,
                 submenu = None, actions = [], node_y = size_height M0,
                 normal_enabled = True, selected_enabled = False,
                 is_separator = False, buffer_max_width = None\<rparr>"
    from r m lk True have s': "s' = update_menu m'
              (\<lambda>M. M\<lparr>size_height := cadd (size_height M) (height ?it),
                       menuitems := menuitems M @ [(heap_next s, ?it)]\<rparr>)
              (update_menu m' (\<lambda>M. M\<lparr>item_height := ?ih\<rparr>) ?s1)"
      by (simp add: item_create_def znew_def Let_def)
    show ?thesis
      unfolding s' by (rule layout_append_item [OF hp ok lk]) simp_all
  qed
qed

lemma layout_separator_create:
  assumes hp: "heap_ok s" and ok: "all_layout_ok s"
    and r: "separator_create m l s = Some (r, s')"
  shows "all_layout_ok s'"
proof -
  from r obtain m' M0 where m: "m = Some m'" and lk: "lookup_menu s m' = Some M0"
    by (auto simp: separator_create_def split: option.splits)
  let ?s1 = "s\<lparr>heap_next := Suc (heap_next s)\<rparr>"
  let ?it = "\<lparr>item_parent = m', execute = None, item_id = None,
               native_width = 0,
               height = cadd (menu_separator_line_thickness (theme s))
                          (cmul 2 (menu_separator_padding_height (theme s))),
               selectable = False,
               submenu = None, actions = [], node_y = size_height M0,
               normal_enabled = True, selected_enabled = False,
               is_separator = True, buffer_max_width = None\<rparr>"
  from r m lk have s': "s' = update_menu m'
            (\<lambda>M. M\<lparr>size_height := cadd (size_height M) (height ?it),
                     menuitems := menuitems M @ [(heap_next s, ?it)]\<rparr>) ?s1"
    by (simp add: separator_create_def znew_def Let_def)
  have "all_layout_ok (update_menu m'
            (\<lambda>M. M\<lparr>size_height := cadd (size_height M) (height ?it),
                     menuitems := menuitems M @ [(heap_next s, ?it)]\<rparr>)
            (update_menu m' (\<lambda>M. M\<lparr>item_height := item_height M0\<rparr>) ?s1))"
    by (rule layout_append_item [OF hp ok lk]) simp_all
  moreover have "update_menu m' (\<lambda>M. M\<lparr>item_height := item_height M0\<rparr>) ?s1 = ?s1"
  proof -
    have "update_at m' (\<lambda>M. M\<lparr>item_height := item_height M0\<rparr>) (menus s) = menus s"
      unfolding update_at_def
      by (rule map_idI) (use lookup_menu_unique [OF hp lk] in auto)
    then show ?thesis by (simp add: update_menu_def)
  qed
  ultimately show ?thesis using s' by simp
qed

lemma layout_menu_hide_submenu: "all_layout_ok s \<Longrightarrow> all_layout_ok (menu_hide_submenu s i)"
  by (auto simp: all_layout_ok_iff menu_hide_submenu_def menu_layout_ok_hide split: option.splits)

lemma layout_update_item:
  assumes "all_layout_ok s" and "\<And>x. height (f x) = height x \<and> node_y (f x) = node_y x"
  shows "all_layout_ok (update_item i f s)"
proof -
  have "menu_layout_ok (M\<lparr>menuitems := update_at i f (menuitems M)\<rparr>)" if "menu_layout_ok M" for M
  proof -
    have h: "item_heights (update_at i f xs) = item_heights xs" for xs
      using assms(2) by (induction xs) (auto simp: item_heights_def update_at_def)
    have tk: "take k (update_at i f xs) = update_at i f (take k xs)" for k xs
      by (simp add: update_at_def take_map)
    have y: "node_y (snd (update_at i f xs ! k)) = node_y (snd (xs ! k))" if "k < length xs" for k xs
      using that assms(2) by (auto simp: update_at_def case_prod_unfold)
    show ?thesis using that by (simp add: menu_layout_ok_def h tk y)
  qed
  then show ?thesis using assms(1) by (auto simp: all_layout_ok_iff update_item_def)
qed

lemma heap_ok_update_item: "heap_ok s \<Longrightarrow> heap_ok (update_item i f s)"
  by (auto simp: heap_ok_def update_item_def menu_addrs_def comp_def case_prod_unfold)

lemma menu_op_step_inv:
  "heap_ok s \<and> all_layout_ok s \<Longrightarrow> menu_op_step E x s = Some s' \<Longrightarrow>
   heap_ok s' \<and> all_layout_ok s'"
proof (cases x)
  case (MenuCreate i lbl)
  assume "heap_ok s \<and> all_layout_ok s" "menu_op_step E x s = Some s'"
  with MenuCreate show ?thesis
    using heap_ok_menu_create [of s i lbl] layout_menu_create [of s i lbl] by auto
next
  case (ItemCreate m t ar)
  assume "heap_ok s \<and> all_layout_ok s" "menu_op_step E x s = Some s'"
  with ItemCreate show ?thesis
    using heap_ok_item_create [of s E m t ar] layout_item_create [of s E m t ar] by auto
next
  case (SeparatorCreate m l)
  assume "heap_ok s \<and> all_layout_ok s" "menu_op_step E x s = Some s'"
  with SeparatorCreate show ?thesis
    using heap_ok_separator_create [of s m l] layout_separator_create [of s m l] by auto
next
  case (ItemSetSubmenu it m)
  assume "heap_ok s \<and> all_layout_ok s" "menu_op_step E x s = Some s'"
  with ItemSetSubmenu show ?thesis
    using heap_ok_update_item [of s it] layout_update_item [of s "\<lambda>x. x\<lparr>submenu := Some m\<rparr>" it]
    by auto
next
  case (MenuHideSubmenu i)
  assume "heap_ok s \<and> all_layout_ok s" "menu_op_step E x s = Some s'"
  with MenuHideSubmenu show ?thesis
    using heap_ok_menu_hide_submenu [of s i] layout_menu_hide_submenu [of s i] by auto
qed

lemma menu_ops_run_inv:
  "heap_ok s \<and> all_layout_ok s \<Longrightarrow> menu_ops_run E ops s = Some s' \<Longrightarrow>
   heap_ok s' \<and> all_layout_ok s'"
proof (induction ops arbitrary: s)
  case Nil
  then show ?case by simp
next
  case (Cons x xs)
  from Cons.prems(2) obtain s1 where 1: "menu_op_step E x s = Some s1"
    and 2: "menu_ops_run E xs s1 = Some s'"
    by (auto split: option.splits)
  from menu_op_step_inv [OF Cons.prems(1) 1] Cons.IH 2 show ?case by blast
qed

subsection \<open>The widest item\<close>

lemma widest_closed_form:
  "acc \<le> menu_max_width th \<Longrightarrow>
   menu_update_width_widest th its acc =
     (if its = [] then acc
      else max acc (min (Max (set (map (\<lambda>(a, it). native_width it) its))) (menu_max_width th)))"
proof (induction its arbitrary: acc)
  case Nil
  then show ?case by simp
next
  case (Cons x xs)
  obtain a it where x: "x = (a, it)" by (cases x)
  let ?hi = "menu_max_width th"
  let ?acc' = "if native_width it > acc
               then (if native_width it < ?hi then native_width it else ?hi) else acc"
  have acc': "?acc' \<le> ?hi" using Cons.prems by simp
  have step: "menu_update_width_widest th (x # xs) acc = menu_update_width_widest th xs ?acc'"
    using x by simp
  have acc'_eq: "?acc' = max acc (min (native_width it) ?hi)"
    using Cons.prems by (simp add: max_def min_def)
  show ?case
  proof (cases "xs = []")
    case True
    then show ?thesis using step acc'_eq x by simp
  next
    case False
    let ?S = "set (map (\<lambda>(a, it). native_width it) xs)"
    have fin: "finite ?S" "?S \<noteq> {}" using False by auto
    have "menu_update_width_widest th xs ?acc' = max ?acc' (min (Max ?S) ?hi)"
      using Cons.IH [OF acc'] False by simp
    also have "\<dots> = max acc (min (max (native_width it) (Max ?S)) ?hi)"
      unfolding acc'_eq by (simp add: max_def min_def)
    also have "max (native_width it) (Max ?S) = Max (insert (native_width it) ?S)"
      using fin by simp
    finally show ?thesis using step x by simp
  qed
qed

subsection \<open>Lookup by id\<close>

lemma is_unique_id_loop_iff:
  "is_unique_id_loop ms i \<longleftrightarrow> i \<notin> set (map (\<lambda>(a, M). menu_id M) ms)"
  by (induction ms) (auto split: if_splits)

lemma menu_get_by_id_loop_None: "is_unique_id_loop ms i \<Longrightarrow> menu_get_by_id_loop ms i = None"
  by (induction ms) auto

lemma menu_get_by_id_loop_first:
  "\<not> is_unique_id_loop ms i \<Longrightarrow>
   \<exists>pre first M0 post. ms = pre @ (first, M0) # post \<and> menu_id M0 = i \<and> is_unique_id_loop pre i
      \<and> menu_get_by_id_loop ms i = Some first"
proof (induction ms)
  case Nil
  then show ?case by simp
next
  case (Cons x ms)
  obtain a M where x: "x = (a, M)" by (cases x)
  show ?case
  proof (cases "menu_id M = i")
    case True
    then have "x # ms = [] @ (a, M) # ms \<and> menu_id M = i \<and> is_unique_id_loop [] i
        \<and> menu_get_by_id_loop (x # ms) i = Some a"
      using x by simp
    then show ?thesis by blast
  next
    case False
    with Cons.prems x have "\<not> is_unique_id_loop ms i" by simp
    from Cons.IH [OF this] obtain pre first M0 post where
      h: "ms = pre @ (first, M0) # post" "menu_id M0 = i" "is_unique_id_loop pre i"
         "menu_get_by_id_loop ms i = Some first" by blast
    have "x # ms = (x # pre) @ (first, M0) # post \<and> menu_id M0 = i \<and> is_unique_id_loop (x # pre) i
        \<and> menu_get_by_id_loop (x # ms) i = Some first"
      using h x False by simp
    then show ?thesis by blast
  qed
qed

lemma menu_get_by_id_loop_append:
  "menu_get_by_id_loop (ms @ ns) i =
     (case menu_get_by_id_loop ms i of Some a \<Rightarrow> Some a | None \<Rightarrow> menu_get_by_id_loop ns i)"
  by (induction ms) auto

lemma menus_menu_create:
  "menus (snd (menu_create s i lbl)) = menus s @ [(fst (menu_create s i lbl),
      \<lparr>menu_id = i, label = (case lbl of Some l \<Rightarrow> l | None \<Rightarrow> i), parent = current_menu s,
       size_width = menu_min_width (theme s), size_height = 0, item_height = 0, menuitems = [],
       is_pipemenu = waiting_for_pipe_menu s, align = 0, selection_item = None,
       selection_menu = None, triggered_by_view = None, scene_enabled = False,
       scene_x = 0, scene_y = 0\<rparr>)]"
  by (simp add: menu_create_def znew_def log_msg_def Let_def)

lemma wlr_log_menu_create:
  "wlr_log (snd (menu_create s i lbl)) =
     (if is_unique_id s i then wlr_log s
      else wlr_log s @ [(WLR_ERROR, ''menu id %s already exists'', [S i])])"
  by (simp add: menu_create_def znew_def log_msg_def Let_def)

subsection \<open>Freeing menus\<close>

lemma refers_to_iff:
  "refers_to m M \<longleftrightarrow> parent M = Some m \<or> (\<exists>(b, it) \<in> set (menuitems M). submenu it = Some m)"
  by (simp add: refers_to_def list_ex_iff)

lemma menus_menu_free:
  "menus (menu_free x s) =
     filter (\<lambda>(a, M). a \<noteq> x) (menus (nullify_item_pointing_to_this_menu x s))"
  by (simp add: menu_free_def Let_def)

lemma nullify_no_refs:
  "(a, M) \<in> set (menus (nullify_item_pointing_to_this_menu x s)) \<Longrightarrow> \<not> refers_to x M"
  by (auto simp: nullify_item_pointing_to_this_menu_def refers_to_iff split: if_splits)

lemma nullify_keeps_no_refs:
  assumes "\<forall>(a, M) \<in> set (menus s). \<not> refers_to m M"
    and "(a, M) \<in> set (menus (nullify_item_pointing_to_this_menu x s))"
  shows "\<not> refers_to m M"
  using assms
  by (fastforce simp: nullify_item_pointing_to_this_menu_def refers_to_iff split: if_splits)

lemma menu_addrs_nullify [simp]:
  "menu_addrs (nullify_item_pointing_to_this_menu x s) = menu_addrs s"
  by (auto simp: menu_addrs_def nullify_item_pointing_to_this_menu_def)

lemma menu_addrs_menu_free: "menu_addrs (menu_free x s) = filter (\<lambda>a. a \<noteq> x) (menu_addrs s)"
proof -
  have "map fst (filter (\<lambda>(a, M). a \<noteq> x) xs) = filter (\<lambda>a. a \<noteq> x) (map fst xs)"
    for xs :: "(addr \<times> menu) list"
    by (induction xs) auto
  then show ?thesis
    using menu_addrs_nullify [of x s] by (simp add: menus_menu_free menu_addrs_def)
qed

lemma unreferenced_iff: "unreferenced m s = (\<forall>(a, M) \<in> set (menus s). \<not> refers_to m M)"
  by (simp add: unreferenced_def list_all_iff case_prod_unfold)

lemma unreferenced_menu_free_self: "unreferenced x (menu_free x s)"
  using nullify_no_refs by (auto simp: unreferenced_iff menus_menu_free)

lemma unreferenced_menu_free: "unreferenced m s \<Longrightarrow> unreferenced m (menu_free x s)"
  unfolding unreferenced_iff menus_menu_free
  using nullify_keeps_no_refs [of s m _ _ x] by auto

lemma freed_by_menu_free:
  "m \<in> set (menu_addrs s) \<or> unreferenced m s \<Longrightarrow> m \<notin> set (menu_addrs (menu_free x s)) \<Longrightarrow>
   unreferenced m (menu_free x s)"
  by (cases "m = x") (auto simp: menu_addrs_menu_free unreferenced_menu_free_self
      unreferenced_menu_free)

lemma freed_by_destroy_pipemenus_loop:
  "m \<in> set (menu_addrs s) \<or> unreferenced m s \<Longrightarrow>
   m \<notin> set (menu_addrs (destroy_pipemenus_loop ms s)) \<Longrightarrow>
   unreferenced m (destroy_pipemenus_loop ms s)"
proof (induction ms arbitrary: s)
  case Nil
  then show ?case by simp
next
  case (Cons x ms)
  obtain a M where x: "x = (a, M)" by (cases x)
  let ?s1 = "if is_pipemenu M then menu_free a s else s"
  have "m \<in> set (menu_addrs ?s1) \<or> unreferenced m ?s1"
    using Cons.prems(1) freed_by_menu_free [of m s a] by auto
  from Cons.IH [OF this] Cons.prems(2) x show ?case by simp
qed

lemma freed_by_menu_free_from_loop:
  "m \<in> set (menu_addrs s) \<or> unreferenced m s \<Longrightarrow>
   m \<notin> set (menu_addrs (menu_free_from_loop from d ms s)) \<Longrightarrow>
   unreferenced m (menu_free_from_loop from d ms s)"
proof (induction ms arbitrary: s d)
  case Nil
  then show ?case by simp
next
  case (Cons x ms)
  obtain a M where x: "x = (a, M)" by (cases x)
  let ?d = "d \<or> Some a = from"
  let ?s1 = "if ?d then menu_free a s else s"
  have "m \<in> set (menu_addrs ?s1) \<or> unreferenced m ?s1"
    using Cons.prems(1) freed_by_menu_free [of m s a] by auto
  from Cons.IH [OF this, of ?d] Cons.prems(2) x show ?case by (simp add: Let_def)
qed

lemma menus_log_msg [simp]: "menus (log_msg l f a s) = menus s"
  by (simp add: log_msg_def)

lemma unreferenced_log_msg [simp]: "unreferenced m (log_msg l f a s) = unreferenced m s"
  by (simp add: unreferenced_iff)

subsection \<open>Ids\<close>

lemma menu_ids_menu_create: "menu_ids (snd (menu_create s i lbl)) = menu_ids s @ [i]"
  by (simp add: menu_ids_def menu_create_def znew_def log_msg_def Let_def)

lemma is_unique_id_menu_ids: "is_unique_id s i \<longleftrightarrow> i \<notin> set (menu_ids s)"
  by (simp add: is_unique_id_def menu_ids_def is_unique_id_loop_iff)

lemma menu_ids_nullify [simp]: "menu_ids (nullify_item_pointing_to_this_menu x s) = menu_ids s"
  by (auto simp: menu_ids_def nullify_item_pointing_to_this_menu_def)

lemma distinct_ids_menu_free: "distinct (menu_ids s) \<Longrightarrow> distinct (menu_ids (menu_free x s))"
proof -
  assume d: "distinct (menu_ids s)"
  have "menu_ids (menu_free x s) =
          map (\<lambda>(a, M). menu_id M)
            (filter (\<lambda>(a, M). a \<noteq> x) (menus (nullify_item_pointing_to_this_menu x s)))"
    by (simp add: menu_ids_def menus_menu_free)
  moreover have "distinct (map (\<lambda>(a, M). menu_id M) (menus (nullify_item_pointing_to_this_menu x s)))"
    using d menu_ids_nullify [of x s] by (simp add: menu_ids_def)
  ultimately show ?thesis by (simp add: distinct_map_filter)
qed

lemma distinct_ids_destroy_pipemenus_loop:
  "distinct (menu_ids s) \<Longrightarrow> distinct (menu_ids (destroy_pipemenus_loop ms s))"
  by (induction ms arbitrary: s) (auto simp: distinct_ids_menu_free)

lemma distinct_ids_menu_free_from_loop:
  "distinct (menu_ids s) \<Longrightarrow> distinct (menu_ids (menu_free_from_loop from d ms s))"
  by (induction ms arbitrary: s d) (auto simp: distinct_ids_menu_free Let_def)

lemma menu_ids_log_msg [simp]: "menu_ids (log_msg l f a s) = menu_ids s"
  by (simp add: menu_ids_def)

subsection \<open>The example run\<close>

lemma built_server_reached:
  "menu_init pipe_env (initial_server example_theme) = Some built_server"
  by code_simp

lemma opened_server_reached: "menu_open_root pipe_env 8 1 100 100 built_server = Some opened_server"
  by code_simp

lemma waiting_server_reached:
  "menu_process_cursor_motion 8 (4242, 7) 4 opened_server = Some waiting_server"
  by code_simp

lemma streaming_server_reached:
  "handle_pipemenu_readable pipe_env 8 12 (ReadBytes ''<openbox_pipe_menu/>'') waiting_server
     = Some streaming_server"
  by code_simp

lemma spliced_server_reached:
  "handle_pipemenu_readable pipe_env 8 12 (ReadBytes []) streaming_server = Some spliced_server"
  by code_simp

subsection \<open>Frame lemmas\<close>

lemma framed_log_msg [simp]: "framed (log_msg l f a t) = framed t"
  by (simp add: framed_def log_msg_def)

lemma framed_update_menu [simp]: "framed (update_menu m f t) = framed t"
  by (simp add: framed_def update_menu_def)

lemma framed_update_item [simp]: "framed (update_item i f t) = framed t"
  by (simp add: framed_def update_item_def)

lemma framed_update_action [simp]: "framed (update_action i f t) = framed t"
  by (simp add: framed_def update_action_def)

lemma framed_build_fields [simp]:
  "framed (t\<lparr>menus := ms\<rparr>) = framed t"
  "framed (t\<lparr>heap_next := n\<rparr>) = framed t"
  "framed (t\<lparr>wlr_log := l\<rparr>) = framed t"
  "framed (t\<lparr>current_item := ci\<rparr>) = framed t"
  "framed (t\<lparr>current_item_action := ca\<rparr>) = framed t"
  "framed (t\<lparr>current_menu := cm\<rparr>) = framed t"
  "framed (t\<lparr>menu_level := lv\<rparr>) = framed t"
  "framed (t\<lparr>in_item := ii\<rparr>) = framed t"
  by (simp_all add: framed_def)

lemma framed_menu_create [simp]: "framed (snd (menu_create t i l)) = framed t"
  by (simp add: menu_create_def znew_def Let_def)

lemma framed_item_create:
  "item_create E m tx ar t = Some (r, t') \<Longrightarrow> framed t' = framed t"
  by (auto simp: item_create_def znew_def Let_def split: option.splits if_splits)

lemma framed_separator_create:
  "separator_create m l t = Some (r, t') \<Longrightarrow> framed t' = framed t"
  by (auto simp: separator_create_def znew_def Let_def split: option.splits if_splits)

lemma framed_fill_item: "fill_item E nn c t = Some t' \<Longrightarrow> framed t' = framed t"
  unfolding fill_item_def Let_def
  by (auto simp: znew_def dest!: framed_item_create split: option.splits if_splits)

lemma framed_entry: "entry E n nn c t = Some t' \<Longrightarrow> framed t' = framed t"
  unfolding entry_def Let_def
  by (auto dest!: framed_fill_item split: option.splits if_splits)

lemma framed_process_node: "process_node E anc n t = Some t' \<Longrightarrow> framed t' = framed t"
  by (auto simp: process_node_def dest!: framed_entry split: if_splits)

lemma framed_handle_separator_element:
  "handle_separator_element n t = Some t' \<Longrightarrow> framed t' = framed t"
  by (auto simp: handle_separator_element_def dest!: framed_separator_create split: option.splits)

lemma framed_menu_create_eq: "menu_create t i l = (a, t') \<Longrightarrow> framed t' = framed t"
  using framed_menu_create [of t i l] by simp

lemma framed_menu_element_pipemenu:
  "menu_element_pipemenu E lbl exe i t = Some t' \<Longrightarrow> framed t' = framed t"
  unfolding menu_element_pipemenu_def
  by (auto dest!: framed_item_create split: option.splits)

lemma framed_menu_element_definition:
  assumes "menu_element_definition E lbl i t = Some t'"
  shows "framed t' = framed t"
proof -
  let ?c = "if menu_level t > 0
            then (case item_create E (current_menu t) lbl True t of
                    None \<Rightarrow> None
                  | Some (it, s1) \<Rightarrow> Some (it, s1\<lparr>current_item := it\<rparr>))
            else Some (None, t)"
  from assms obtain sub s1 where 1: "?c = Some (sub, s1)"
    and 2: "framed t' = framed s1"
    unfolding menu_element_definition_def
    by (cases ?c) (auto simp: Let_def split: option.splits)
  from 1 have "framed s1 = framed t"
    by (cases "menu_level t > 0") (auto dest!: framed_item_create split: option.splits)
  with 2 show ?thesis by simp
qed

lemma framed_menu_element_link:
  "menu_element_link E i t = Some t' \<Longrightarrow> framed t' = framed t"
  unfolding menu_element_link_def
  by (auto dest!: framed_item_create split: option.splits bool.splits)

lemma framed_handle_menu_element_enter:
  "handle_menu_element_enter E anc n t = Some (d, t') \<Longrightarrow> framed t' = framed t"
  unfolding handle_menu_element_enter_def Let_def
  by (auto dest!: framed_menu_element_pipemenu framed_menu_element_definition
      framed_menu_element_link split: if_splits)

lemma framed_xml_walk:
  "(xml_tree_walk E anc ns t = Some t' \<longrightarrow> framed t' = framed t)"
  "(traverse E anc n t = Some t' \<longrightarrow> framed t' = framed t)"
  "(traverse_attrs E anc ats t = Some t' \<longrightarrow> framed t' = framed t)"
  "(handle_menu_element E anc n t = Some t' \<longrightarrow> framed t' = framed t)"
proof (induction E anc ns t and E anc n t and E anc ats t and E anc n t
    arbitrary: t' and t' and t' and t'
    rule: xml_tree_walk_traverse_traverse_attrs_handle_menu_element.induct)
  case (1 E anc s)
  then show ?case by simp
next
  case (2 E anc n ns s)
  show ?case
  proof
    assume r: "xml_tree_walk E anc (n # ns) s = Some t'"
    show "framed t' = framed s"
    proof (cases "strcasecmp_eq (xml_name n) ''comment''")
      case True
      with r 2(1) show ?thesis by simp
    next
      case c: False
      show ?thesis
      proof (cases "strcasecmp_eq (xml_name n) ''menu''")
        case True
        with r c obtain s1 where 1: "handle_menu_element E anc n s = Some s1"
          and w: "xml_tree_walk E anc ns s1 = Some t'"
          by (auto split: option.splits)
        from 2(2) [OF c True] 1 have "framed s1 = framed s" by simp
        moreover from 2(3) [OF c True 1] w have "framed t' = framed s1" by simp
        ultimately show ?thesis by simp
      next
        case m: False
        show ?thesis
        proof (cases "strcasecmp_eq (xml_name n) ''separator''")
          case True
          with r c m obtain s1 where 1: "handle_separator_element n s = Some s1"
            and w: "xml_tree_walk E anc ns s1 = Some t'"
            by (auto split: option.splits)
          from framed_handle_separator_element [OF 1] have "framed s1 = framed s" .
          moreover from 2(4) [OF c m True 1] w have "framed t' = framed s1" by simp
          ultimately show ?thesis by simp
        next
          case sp: False
          show ?thesis
          proof (cases "strcasecmp_eq (xml_name n) ''item''")
            case True
            with r c m sp obtain s1 where 1: "traverse E anc n (s\<lparr>in_item := True\<rparr>) = Some s1"
              and w: "xml_tree_walk E anc ns (s1\<lparr>in_item := False\<rparr>) = Some t'"
              by (auto split: option.splits)
            from 2(5) [OF c m sp True] 1 have "framed s1 = framed s" by simp
            moreover from 2(6) [OF c m sp True 1] w have "framed t' = framed s1" by simp
            ultimately show ?thesis by simp
          next
            case False
            with r c m sp obtain s1 where 1: "traverse E anc n s = Some s1"
              and w: "xml_tree_walk E anc ns s1 = Some t'"
              by (auto split: option.splits)
            from 2(7) [OF c m sp False] 1 have "framed s1 = framed s" by simp
            moreover from 2(8) [OF c m sp False 1] w have "framed t' = framed s1" by simp
            ultimately show ?thesis by simp
          qed
        qed
      qed
    qed
  qed
next
  case (3 E anc n s)
  show ?case
  proof
    assume r: "traverse E anc n s = Some t'"
    then obtain s1 s2 where 1: "process_node E anc n s = Some s1"
      and 2: "traverse_attrs E (xml_name n # anc) (properties n) s1 = Some s2"
      and w: "xml_tree_walk E (xml_name n # anc) (children n) s2 = Some t'"
      by (auto split: option.splits)
    from framed_process_node [OF 1] have "framed s1 = framed s" .
    moreover from 3(1) [OF 1] 2 have "framed s2 = framed s1" by simp
    moreover from 3(2) [OF 1 2] w have "framed t' = framed s2" by simp
    ultimately show "framed t' = framed s" by simp
  qed
next
  case (4 E anc s)
  then show ?case by simp
next
  case (5 E anc at ats s)
  show ?case
  proof
    assume r: "traverse_attrs E anc (at # ats) s = Some t'"
    then obtain s1 where 1: "xml_tree_walk E (fst at # anc) (snd at) s = Some s1"
      and w: "traverse_attrs E anc ats s1 = Some t'"
      by (auto split: option.splits)
    from 5(1) 1 have "framed s1 = framed s" by simp
    moreover from 5(2) [OF 1] w have "framed t' = framed s1" by simp
    ultimately show "framed t' = framed s" by simp
  qed
next
  case (6 E anc n s)
  show ?case
  proof
    assume r: "handle_menu_element E anc n s = Some t'"
    then obtain d s1 where 1: "handle_menu_element_enter E anc n s = Some (d, s1)"
      by (auto split: option.splits)
    have f1: "framed s1 = framed s" using framed_handle_menu_element_enter [OF 1] .
    show "framed t' = framed s"
    proof (cases d)
      case False
      with r 1 f1 show ?thesis by simp
    next
      case True
      with r 1 obtain s2 where 2: "traverse E anc n s1 = Some s2"
        and l: "handle_menu_element_leave s2 = Some t'"
        by (auto split: option.splits)
      from 6 [OF 1 refl] True 2 have "framed s2 = framed s1" by simp
      moreover from l have "framed t' = framed s2"
        by (auto simp: handle_menu_element_leave_def split: option.splits)
      ultimately show ?thesis using f1 by simp
    qed
  qed
qed

lemma framed_parse_buf: "parse_buf E b t = Some (ok, t') \<Longrightarrow> framed t' = framed t"
  unfolding parse_buf_def
  using framed_xml_walk(1) by (fastforce split: option.splits)

lemma framed_parse_stream: "parse_stream E c t = Some t' \<Longrightarrow> framed t' = framed t"
  unfolding parse_stream_def using framed_parse_buf by fastforce

lemma framed_parse_xml_loop: "parse_xml_loop E mg ps t = Some t' \<Longrightarrow> framed t' = framed t"
proof (induction ps arbitrary: t)
  case Nil
  then show ?case by simp
next
  case (Cons p ps)
  obtain path c where p: "p = (path, c)" by (cases p)
  show ?case
  proof (cases c)
    case None
    with Cons.prems p show ?thesis by simp
  next
    case (Some str)
    with Cons.prems p obtain s1 where
      1: "parse_stream E str (log_msg WLR_INFO ''read menu file %s'' [S path] t) = Some s1"
      and 2: "(if \<not> mg then Some s1 else parse_xml_loop E mg ps s1) = Some t'"
      by (auto split: option.splits)
    from framed_parse_stream [OF 1] have "framed s1 = framed t" by simp
    moreover from 2 Cons.IH have "framed t' = framed s1" by (auto split: if_splits)
    ultimately show ?thesis by simp
  qed
qed

lemma framed_parse_xml: "parse_xml E t = Some t' \<Longrightarrow> framed t' = framed t"
  unfolding parse_xml_def by (rule framed_parse_xml_loop)

lemma framed_menu_configure:
  "(menu_configure E k m lx ly al t = Some t' \<longrightarrow> framed t' = framed t)"
  "(menu_configure_items E k its al t = Some t' \<longrightarrow> framed t' = framed t)"
proof (induction E k m lx ly al t and E k its al t arbitrary: t' and t'
    rule: menu_configure_menu_configure_items.induct)
  case (1 E m lx ly al s)
  then show ?case by simp
next
  case (2 E k m lx ly al s)
  show ?case
  proof
    assume r: "menu_configure E (Suc k) m lx ly al s = Some t'"
    then obtain M where M: "lookup_menu s m = Some M" by (auto split: option.splits)
    show "framed t' = framed s"
    proof (cases "output_at E lx ly")
      case None
      with r M show ?thesis by auto
    next
      case (Some out)
      with r M obtain al1 where
        a: "(if al = LAB_MENU_OPEN_AUTO
             then map_option (resolve_align_x out (lx - output_x out)) (menu_get_full_width k s m)
             else Some al) = Some al1"
        by (auto simp: Let_def split: option.splits)
      let ?al2 = "resolve_align_y out (ly - output_y out) (size_height M) al1"
      let ?s1 = "update_menu m
                   (\<lambda>M'. M'\<lparr>scene_x := (if ?al2 AND LAB_MENU_OPEN_LEFT \<noteq> 0
                                          then csub lx (csub (size_width M) (menu_overlap_x (theme s)))
                                          else lx),
                              scene_y := (if ?al2 AND LAB_MENU_OPEN_TOP \<noteq> 0
                                          then (if parent M \<noteq> None
                                                then cadd (csub ly (size_height M)) (item_height M)
                                                else csub ly (size_height M))
                                          else ly),
                              align := ?al2\<rparr>) s"
      from r M Some a have w: "menu_configure_items E k (menuitems M) ?al2 ?s1 = Some t'"
        by (simp add: Let_def)
      from 2 [OF M Some refl refl a refl refl refl refl] w have "framed t' = framed ?s1"
        by simp
      then show ?thesis by simp
    qed
  qed
next
  case (3 E k al s)
  then show ?case by simp
next
  case (4 E k a it its al s)
  show ?case
  proof
    assume r: "menu_configure_items E k ((a, it) # its) al s = Some t'"
    show "framed t' = framed s"
    proof (cases "submenu it")
      case None
      with r 4(1) show ?thesis by simp
    next
      case (Some sub)
      with r obtain px py s1 where p: "get_submenu_position s it al = Some (px, py)"
        and c: "menu_configure E k sub px py al s = Some s1"
        and w: "menu_configure_items E k its al s1 = Some t'"
        by (auto split: option.splits)
      from 4(2) [OF Some p refl] c have "framed s1 = framed s" by simp
      moreover from 4(3) [OF Some p refl c] w have "framed t' = framed s1" by simp
      ultimately show ?thesis by simp
    qed
  qed
qed

lemma framed_menu_hide_submenu [simp]: "framed (menu_hide_submenu t i) = framed t"
  by (simp add: menu_hide_submenu_def split: option.splits)

lemma framed_fill_items: "fill_items E fs t = Some t' \<Longrightarrow> framed t' = framed t"
  by (induction fs arbitrary: t) (auto dest!: framed_fill_item split: option.splits)

lemma framed_default_item: "default_item E m tx ar fs t = Some t' \<Longrightarrow> framed t' = framed t"
  unfolding default_item_def
  by (auto dest!: framed_item_create framed_fill_items split: option.splits)

lemma framed_get_or_create_default: "framed (snd (get_or_create_default t i)) = framed t"
  by (simp add: get_or_create_default_def split: option.splits)

lemma framed_get_or_create_default_eq:
  "get_or_create_default t i = (m, t') \<Longrightarrow> framed t' = framed t"
  using framed_get_or_create_default [of t i] by simp

lemma framed_init_rootmenu: "init_rootmenu E t = Some t' \<Longrightarrow> framed t' = framed t"
  unfolding init_rootmenu_def
  by (auto dest!: framed_default_item framed_get_or_create_default_eq
      split: prod.splits option.splits if_splits Option.bind_splits)

lemma framed_post_processing [simp]: "framed (post_processing t) = framed t"
  by (simp add: post_processing_def)

lemma framed_validate_log [simp]: "framed (validate_log E acts t) = framed t"
  by (induction acts arbitrary: t) auto

lemma framed_validate [simp]: "framed (validate E t) = framed t"
  by (simp add: validate_def Let_def)

lemma framed_nullify [simp]: "framed (nullify_item_pointing_to_this_menu m t) = framed t"
  by (simp add: nullify_item_pointing_to_this_menu_def)

lemma framed_menu_free [simp]: "framed (menu_free m t) = framed t"
  by (simp add: menu_free_def Let_def)

lemma framed_menu_free_from_loop [simp]: "framed (menu_free_from_loop fr d ms t) = framed t"
  by (induction ms arbitrary: t d) (auto simp: Let_def)

lemma framed_menu_free_from [simp]: "framed (menu_free_from t fr) = framed t"
  by (simp add: menu_free_from_def)

lemma framed_menu_finish [simp]: "framed (menu_finish t) = framed t"
  by (simp add: menu_finish_def)

lemma framed_destroy_pipemenus_loop [simp]: "framed (destroy_pipemenus_loop ms t) = framed t"
  by (induction ms arbitrary: t) auto

lemma framed_destroy_pipemenus [simp]: "framed (destroy_pipemenus t) = framed t"
  by (simp add: destroy_pipemenus_def Let_def)

lemma framed_menu_set_selection: "menu_set_selection m i t = Some t' \<Longrightarrow> framed t' = framed t"
  unfolding menu_set_selection_def
  by (auto split: option.splits if_splits Option.bind_splits)

lemma framed_close_all_submenus:
  "(close_all_submenus k m t = Some t' \<longrightarrow> framed t' = framed t)"
  "(close_all_submenus_items k its t = Some t' \<longrightarrow> framed t' = framed t)"
proof (induction k m t and k its t arbitrary: t' and t'
    rule: close_all_submenus_close_all_submenus_items.induct)
  case (1 m s)
  then show ?case by simp
next
  case (2 k m s)
  show ?case
  proof
    assume r: "close_all_submenus (Suc k) m s = Some t'"
    then obtain M s1 where M: "lookup_menu s m = Some M"
      and c: "close_all_submenus_items k (menuitems M) s = Some s1"
      and t': "t' = update_menu m (\<lambda>M'. M'\<lparr>selection_menu := None\<rparr>) s1"
      by (auto split: option.splits)
    from 2 [OF M] c t' show "framed t' = framed s" by simp
  qed
next
  case (3 k s)
  then show ?case by simp
next
  case (4 k a it its s)
  show ?case
  proof
    assume r: "close_all_submenus_items k ((a, it) # its) s = Some t'"
    show "framed t' = framed s"
    proof (cases "submenu it")
      case None
      with r 4(1) show ?thesis by simp
    next
      case (Some sub)
      with r obtain S s1 where l: "lookup_menu s sub = Some S"
        and c: "close_all_submenus k sub (update_menu sub (\<lambda>M'. M'\<lparr>scene_enabled := False\<rparr>) s) = Some s1"
        and w: "close_all_submenus_items k its s1 = Some t'"
        by (auto split: option.splits)
      from 4(2) [OF Some l] c have "framed s1 = framed s" by simp
      moreover from 4(3) [OF Some l c] w have "framed t' = framed s1" by simp
      ultimately show ?thesis by simp
    qed
  qed
qed

lemma framed_close_rec: "close_rec k m t = Some t' \<Longrightarrow> framed t' = framed t"
proof (induction k arbitrary: m t t')
  case 0
  then show ?case by simp
next
  case (Suc k)
  from Suc.prems obtain s1 M1 where
    1: "menu_set_selection m None (update_menu m (\<lambda>M'. M'\<lparr>scene_enabled := False\<rparr>) t) = Some s1"
    and M1: "lookup_menu s1 m = Some M1"
    and 2: "(case selection_menu M1 of
               None \<Rightarrow> Some s1
             | Some c \<Rightarrow>
                 (case close_rec k c s1 of
                    None \<Rightarrow> None
                  | Some s2 \<Rightarrow> Some (update_menu m (\<lambda>M'. M'\<lparr>selection_menu := None\<rparr>) s2))) = Some t'"
    by (auto split: option.splits)
  from framed_menu_set_selection [OF 1] have "framed s1 = framed t" by simp
  moreover from 2 Suc.IH have "framed t' = framed s1"
    by (auto split: option.splits)
  ultimately show ?case by simp
qed

lemma framed_menu_close: "menu_close k m t = Some t' \<Longrightarrow> framed t' = framed t"
  unfolding menu_close_def by (auto dest!: framed_close_rec split: option.splits)

lemma framed_init_windowmenu: "init_windowmenu E t = Some t' \<Longrightarrow> framed t' = framed t"
  unfolding init_windowmenu_def
  by (auto dest!: framed_default_item framed_get_or_create_default_eq framed_menu_create_eq
      framed_item_create framed_separator_create
      simp: Let_def
      split: prod.splits option.splits if_splits Option.bind_splits)

lemma framed_menu_init: "menu_init E t = Some t' \<Longrightarrow> framed t' = framed t"
  unfolding menu_init_def
  by (auto dest!: framed_parse_xml framed_init_rootmenu framed_init_windowmenu
      split: Option.bind_splits)

lemma framed_create_pipe_menu: "create_pipe_menu E k c t = Some t' \<Longrightarrow> framed t' = framed t"
  unfolding create_pipe_menu_def
  by (auto dest!: framed_parse_buf framed_menu_create_eq framed_menu_configure(1) [rule_format]
      simp: Let_def
      split: prod.splits option.splits if_splits Option.bind_splits)

subsection \<open>Selection\<close>

lemma selected_item_framed: "framed t' = framed t \<Longrightarrow> selected_item t' = selected_item t"
  by (simp add: framed_def)

lemma parse_pipemenu_cases:
  assumes "parse_pipemenu sp item t = Some t'"
  shows "(menus t' = menus t \<and> framed t' = framed t) \<or>
         (\<exists>it. lookup_item t item = Some it \<and>
            t' = (log_msg WLR_DEBUG ''[pipemenu %ld] executed: %s'' [I (fst sp), S (the (execute it))]
                   (t\<lparr>waiting_for_pipe_menu := True, heap_next := Suc (heap_next t),
                      pipe_ctxs := pipe_ctxs t @ [(heap_next t,
                        \<lparr>ctx_item = item, ctx_buf = [], ctx_pid = fst sp, ctx_pipe_fd = snd sp\<rparr>)]\<rparr>)))"
  using assms unfolding parse_pipemenu_def
  by (auto simp: Let_def znew_def log_msg_def
      split: Option.bind_splits if_splits prod.splits)

lemma selected_item_parse_pipemenu:
  "parse_pipemenu sp item t = Some t' \<Longrightarrow> selected_item t' = selected_item t"
  using parse_pipemenu_cases [of sp item t t']
  by (auto simp: framed_def log_msg_def)

lemma selected_item_select:
  assumes "menu_process_item_selection k sp item s = Some s'"
    and "Some item \<noteq> selected_item s" and "\<not> waiting_for_pipe_menu s"
  shows "selected_item s' = Some item"
proof -
  let ?s1 = "s\<lparr>selected_item := Some item\<rparr>"
  from assms obtain it where it: "lookup_item ?s1 item = Some it"
    unfolding menu_process_item_selection_def by (auto simp: Let_def split: option.splits)
  show ?thesis
  proof (cases "selectable it")
    case False
    with assms it show ?thesis
      unfolding menu_process_item_selection_def by (auto simp: Let_def)
  next
    case True
    with assms it obtain s2 P s3 it3 where
      2: "menu_set_selection (item_parent it) (Some item) ?s1 = Some s2"
      and P: "lookup_menu s2 (item_parent it) = Some P"
      and 3: "(case selection_menu P of None \<Rightarrow> Some s2
               | Some old \<Rightarrow> menu_close k (Some old) s2) = Some s3"
      and it3: "lookup_item s3 item = Some it3"
      and r: "(if execute it3 \<noteq> None \<and> submenu it3 = None then parse_pipemenu sp item s3
               else do {
                       s4 \<leftarrow> (case submenu it3 of
                                None \<Rightarrow> Some s3
                              | Some sub \<Rightarrow>
                                  do {
                                    _ \<leftarrow> lookup_menu s3 sub;
                                    P3 \<leftarrow> lookup_menu s3 (item_parent it3);
                                    Some (update_menu sub
                                      (\<lambda>M. M\<lparr>triggered_by_view := triggered_by_view P3,
                                              parent := Some (item_parent it3),
                                              scene_enabled := True\<rparr>) s3)
                                  });
                       _ \<leftarrow> lookup_menu s4 (item_parent it3);
                       Some (update_menu (item_parent it3)
                               (\<lambda>M. M\<lparr>selection_menu := submenu it3\<rparr>) s4)
                     }) = Some s'"
      unfolding menu_process_item_selection_def
      by (auto simp: Let_def split: Option.bind_splits)
    from framed_menu_set_selection [OF 2] have "selected_item s2 = Some item"
      by (simp add: framed_def)
    moreover from 3 have "framed s3 = framed s2"
      by (auto dest!: framed_menu_close split: option.splits)
    ultimately have s3: "selected_item s3 = Some item" by (simp add: framed_def)
    show ?thesis
    proof (cases "execute it3 \<noteq> None \<and> submenu it3 = None")
      case True
      with r s3 show ?thesis using selected_item_parse_pipemenu by auto
    next
      case False
      with r have "framed s' = framed s3"
        by (auto split: Option.bind_splits option.splits)
      with s3 show ?thesis by (simp add: framed_def)
    qed
  qed
qed

lemma select_noop:
  "Some item = selected_item s \<or> waiting_for_pipe_menu s \<Longrightarrow>
   menu_process_item_selection k sp item s = Some s"
  by (cases "Some item = selected_item s") (simp_all add: menu_process_item_selection_def)

subsection \<open>The pipe-menu callbacks\<close>

lemma pipemenu_ctx_destroy_Some:
  "lookup_ctx s c = Some ctx \<Longrightarrow>
   pipemenu_ctx_destroy c s =
     Some (s\<lparr>pipe_ctxs := filter (\<lambda>(a, x). a \<noteq> c) (pipe_ctxs s),
             closed_pipes := closed_pipes s @ [(ctx_pid ctx, ctx_pipe_fd ctx)],
             waiting_for_pipe_menu := False\<rparr>)"
  by (simp add: pipemenu_ctx_destroy_def)

lemma lookup_ctx_log_msg [simp]: "lookup_ctx (log_msg l f a s) c = lookup_ctx s c"
  by (simp add: lookup_ctx_def log_msg_def)

lemma lookup_ctx_kill [simp]: "lookup_ctx (kill p sg s) c = lookup_ctx s c"
  by (simp add: lookup_ctx_def kill_def)



lemma starts_with_less_than_iff:
  "starts_with_less_than b \<longleftrightarrow>
     (\<exists>ws rest. b = ws @ CHR ''<'' # rest \<and> set ws \<subseteq> blank_chars)"
proof
  let ?P = "\<lambda>c. c = CHR '' '' \<or> c = CHR 0x09 \<or> c = CHR 0x0D \<or> c = CHR 0x0A"
  assume "starts_with_less_than b"
  then obtain rest where d: "dropWhile ?P b = CHR ''<'' # rest"
    by (auto simp: starts_with_less_than_def split: list.splits)
  have "b = takeWhile ?P b @ dropWhile ?P b" by simp
  moreover have "set (takeWhile ?P b) \<subseteq> blank_chars"
    by (auto simp: blank_chars_def dest: set_takeWhileD)
  ultimately show "\<exists>ws rest. b = ws @ CHR ''<'' # rest \<and> set ws \<subseteq> blank_chars"
    using d by metis
next
  let ?P = "\<lambda>c. c = CHR '' '' \<or> c = CHR 0x09 \<or> c = CHR 0x0D \<or> c = CHR 0x0A"
  assume "\<exists>ws rest. b = ws @ CHR ''<'' # rest \<and> set ws \<subseteq> blank_chars"
  then obtain ws rest where b: "b = ws @ CHR ''<'' # rest" and ws: "set ws \<subseteq> blank_chars"
    by blast
  from ws have "\<forall>c \<in> set ws. ?P c" by (auto simp: blank_chars_def)
  then have "dropWhile ?P b = CHR ''<'' # rest"
    unfolding b by (simp add: dropWhile_append2)
  then show "starts_with_less_than b" by (simp add: starts_with_less_than_def)
qed

section \<open>The claims\<close>



text \<open>
  C3. For a registered request whose buffer is within the 1 MiB bound, at the end of the
  stream (a read of zero bytes): if the buffer, after leading spaces, tabs, carriage
  returns and newlines, does not begin with \<open><\<close>, the handler returns, logs the
  diagnostic after the read message, removes the request and leaves every menu and item
  as it was, so the triggering item gets no submenu; if it does, the handler is
  \<^verbatim>\<open>create_pipe_menu\<close> followed by the removal of the request. Hence the menus change
  only if the buffer begins with \<open><\<close> after the blanks. The test itself holds exactly
  for the buffers that are blanks followed by \<open><\<close>.
\<close>

theorem pipemenu_end_of_stream:
  assumes "lookup_ctx s c = Some ctx"
    and "int (length (ctx_buf ctx)) \<le> PIPEMENU_MAX_BUF_SIZE"
  shows "(\<not> starts_with_less_than (ctx_buf ctx) \<longrightarrow>
            (\<exists>s'. handle_pipemenu_readable E k c (ReadBytes []) s = Some s' \<and>
               wlr_log s' = wlr_log s @
                 [(WLR_DEBUG, ''[pipemenu %ld] read %ld bytes of data'', [I (ctx_pid ctx), I 0]),
                  (WLR_ERROR, ''expect xml data to start with '<'; abort pipemenu'', [])] \<and>
               menus s' = menus s \<and> kills s' = kills s \<and>
               pipe_ctxs s' = filter (\<lambda>(a, x). a \<noteq> c) (pipe_ctxs s) \<and>
               \<not> waiting_for_pipe_menu s')) \<and>
         (starts_with_less_than (ctx_buf ctx) \<longrightarrow>
            handle_pipemenu_readable E k c (ReadBytes []) s =
              Option.bind
                (create_pipe_menu E k c
                   (log_msg WLR_DEBUG ''[pipemenu %ld] read %ld bytes of data''
                      [I (ctx_pid ctx), I 0] s))
                (pipemenu_ctx_destroy c)) \<and>
         (\<forall>s'. handle_pipemenu_readable E k c (ReadBytes []) s = Some s' \<and> menus s' \<noteq> menus s
            \<longrightarrow> starts_with_less_than (ctx_buf ctx)) \<and>
         (starts_with_less_than (ctx_buf ctx) \<longleftrightarrow>
            (\<exists>ws rest. ctx_buf ctx = ws @ CHR ''<'' # rest \<and> set ws \<subseteq> blank_chars))"
proof -
  let ?s1 = "log_msg WLR_DEBUG ''[pipemenu %ld] read %ld bytes of data'' [I (ctx_pid ctx), I 0] s"
  let ?s2 = "log_msg WLR_ERROR ''expect xml data to start with '<'; abort pipemenu'' [] ?s1"
  have no: "handle_pipemenu_readable E k c (ReadBytes []) s =
          Some (?s2\<lparr>pipe_ctxs := filter (\<lambda>(a, x). a \<noteq> c) (pipe_ctxs ?s2),
             closed_pipes := closed_pipes ?s2 @ [(ctx_pid ctx, ctx_pipe_fd ctx)],
             waiting_for_pipe_menu := False\<rparr>)"
    if "\<not> starts_with_less_than (ctx_buf ctx)"
  proof -
    have "handle_pipemenu_readable E k c (ReadBytes []) s = pipemenu_ctx_destroy c ?s2"
      using assms that by (simp add: handle_pipemenu_readable_def)
    also have "\<dots> = Some (?s2\<lparr>pipe_ctxs := filter (\<lambda>(a, x). a \<noteq> c) (pipe_ctxs ?s2),
             closed_pipes := closed_pipes ?s2 @ [(ctx_pid ctx, ctx_pipe_fd ctx)],
             waiting_for_pipe_menu := False\<rparr>)"
      using assms(1) by (intro pipemenu_ctx_destroy_Some) simp
    finally show ?thesis .
  qed
  have yes: "handle_pipemenu_readable E k c (ReadBytes []) s =
          Option.bind (create_pipe_menu E k c ?s1) (pipemenu_ctx_destroy c)"
    if "starts_with_less_than (ctx_buf ctx)"
    using assms that by (simp add: handle_pipemenu_readable_def)
  have only: "starts_with_less_than (ctx_buf ctx)"
    if "handle_pipemenu_readable E k c (ReadBytes []) s = Some s'" "menus s' \<noteq> menus s" for s'
  proof (rule ccontr)
    assume "\<not> starts_with_less_than (ctx_buf ctx)"
    from no [OF this] that show False by (auto simp: log_msg_def)
  qed
  show ?thesis
    using no yes only starts_with_less_than_iff [of "ctx_buf ctx"]
    by (auto simp: log_msg_def)
qed

theorem pipemenu_end_of_stream_witness:
  "lookup_ctx waiting_server 12 =
     Some \<lparr>ctx_item = 4, ctx_buf = [], ctx_pid = 4242, ctx_pipe_fd = 7\<rparr> \<and>
   \<not> starts_with_less_than [] \<and>
   (\<exists>s'. handle_pipemenu_readable pipe_env 8 12 (ReadBytes []) waiting_server = Some s' \<and>
      menus s' = menus waiting_server \<and> pipe_ctxs s' = [] \<and> \<not> waiting_for_pipe_menu s') \<and>
   lookup_ctx streaming_server 12 =
     Some \<lparr>ctx_item = 4, ctx_buf = ''<openbox_pipe_menu/>'', ctx_pid = 4242, ctx_pipe_fd = 7\<rparr> \<and>
   handle_pipemenu_readable pipe_env 8 12 (ReadBytes []) streaming_server = Some spliced_server \<and>
   menus spliced_server \<noteq> menus streaming_server \<and>
   starts_with_less_than ''<openbox_pipe_menu/>''"
proof -
  let ?c0 = "\<lparr>ctx_item = 4, ctx_buf = [], ctx_pid = 4242, ctx_pipe_fd = 7\<rparr>"
  let ?c1 = "\<lparr>ctx_item = 4, ctx_buf = ''<openbox_pipe_menu/>'', ctx_pid = 4242, ctx_pipe_fd = 7\<rparr>"
  have l0: "lookup_ctx waiting_server 12 = Some ?c0"
    by (simp add: waiting_server_def lookup_ctx_def)
  have l1: "lookup_ctx streaming_server 12 = Some ?c1"
    by (simp add: streaming_server_def lookup_ctx_def)
  have b0: "int (length (ctx_buf ?c0)) \<le> PIPEMENU_MAX_BUF_SIZE"
    by (simp add: PIPEMENU_MAX_BUF_SIZE_def)
  have b1: "int (length (ctx_buf ?c1)) \<le> PIPEMENU_MAX_BUF_SIZE"
    by (simp add: PIPEMENU_MAX_BUF_SIZE_def)
  have n0: "\<not> starts_with_less_than []" by (simp add: starts_with_less_than_def)
  have p0: "pipe_ctxs waiting_server = [(12, ?c0)]" by (simp add: waiting_server_def)
  from pipemenu_end_of_stream [OF l0 b0, of pipe_env 8] n0 p0
  have a: "\<exists>s'. handle_pipemenu_readable pipe_env 8 12 (ReadBytes []) waiting_server = Some s' \<and>
      menus s' = menus waiting_server \<and> pipe_ctxs s' = [] \<and> \<not> waiting_for_pipe_menu s'"
    by auto
  have "length (menus spliced_server) \<noteq> length (menus streaming_server)" by code_simp
  then have d: "menus spliced_server \<noteq> menus streaming_server" by auto
  from pipemenu_end_of_stream [OF l1 b1, of pipe_env 8] spliced_server_reached d
  have "starts_with_less_than ''<openbox_pipe_menu/>''" by auto
  with l0 l1 n0 a d spliced_server_reached show ?thesis by blast
qed

text \<open>
  C4, as amended. The ids of the live menus are not unique at all times: \<^verbatim>\<open>menu_create\<close>
  registers a menu under an id that a live menu already has (it only logs). What holds:
  after \<^verbatim>\<open>menu_create\<close> the ids are pairwise distinct exactly when they were before and
  the new id was not registered yet; and teardown (\<^verbatim>\<open>menu_free\<close>,
  \<^verbatim>\<open>destroy_pipemenus\<close>, \<^verbatim>\<open>menu_free_from\<close>) keeps distinct ids distinct.
\<close>

theorem menu_ids_unique_unless_duplicate_created:
  "(distinct (menu_ids (snd (menu_create s i lbl))) \<longleftrightarrow> distinct (menu_ids s) \<and> is_unique_id s i) \<and>
   (distinct (menu_ids s) \<longrightarrow>
      distinct (menu_ids (menu_free x s)) \<and>
      distinct (menu_ids (destroy_pipemenus s)) \<and>
      distinct (menu_ids (menu_free_from s from)))"
  by (auto simp: menu_ids_menu_create is_unique_id_menu_ids distinct_ids_menu_free
      destroy_pipemenus_def Let_def distinct_ids_destroy_pipemenus_loop menu_free_from_def
      distinct_ids_menu_free_from_loop)

theorem menu_ids_unique_unless_duplicate_created_witness:
  "distinct (menu_ids spliced_server) \<and>
   is_unique_id spliced_server ''new'' \<and>
   distinct (menu_ids (snd (menu_create spliced_server ''new'' None))) \<and>
   \<not> is_unique_id spliced_server ''sub'' \<and>
   \<not> distinct (menu_ids (snd (menu_create spliced_server ''sub'' None))) \<and>
   distinct (menu_ids (menu_free 7 spliced_server)) \<and>
   distinct (menu_ids (destroy_pipemenus spliced_server)) \<and>
   distinct (menu_ids (menu_free_from spliced_server (Some 9)))"
proof -
  have 1: "distinct (menu_ids spliced_server)" by code_simp
  have 2: "is_unique_id spliced_server ''new''" by code_simp
  have 3: "\<not> is_unique_id spliced_server ''sub''" by code_simp
  from menu_ids_unique_unless_duplicate_created [of spliced_server "''new''" None 7 "Some 9"]
    menu_ids_unique_unless_duplicate_created [of spliced_server "''sub''" None 7 "Some 9"]
    1 2 3
  show ?thesis by simp
qed

text \<open>
  C4 as stated fails on a configuration that defines the id \<^verbatim>\<open>a\<close> twice: after
  \<^verbatim>\<open>menu_init\<close> two live menus are registered under it.
\<close>

theorem menu_ids_unique_counterexample:
  "map_option menu_ids
     (menu_init (example_env (Some duplicate_id_doc) [(''menu.xml'', Some ''<openbox_menu/>'')])
        (initial_server example_theme))
   = Some [''a'', ''a'', ''root-menu'', ''client-menu'', ''workspaces'']"
  by code_simp

text \<open>
  C5. Starting from an empty registry, after any sequence of menu creations, item
  creations (regular items or separators), submenu assignments and item removals
  (\<^verbatim>\<open>menu_hide_submenu\<close>) that runs to its end, every live menu's stored height is the
  sum of the heights of its items in list order, and every item's vertical position is
  the sum of the heights of the items before it, each as a 32-bit \<^verbatim>\<open>int\<close> holds that
  sum; where no sum of the heights of the first items of the menu is beyond the range of
  an \<^verbatim>\<open>int\<close>, the stored height and the positions are these sums themselves.
\<close>

theorem menu_height_is_sum_of_item_heights:
  assumes "menus s = []" and "menu_ops_run E ops s = Some s'"
    and "(a, M) \<in> set (menus s')"
  shows "menu_layout_ok M \<and>
         (heights_fit M \<longrightarrow>
            size_height M = sum_list (item_heights (menuitems M)) \<and>
            (\<forall>k < length (menuitems M).
               node_y (snd (menuitems M ! k)) = sum_list (item_heights (take k (menuitems M)))))"
proof -
  have "heap_ok s \<and> all_layout_ok s"
    using assms(1) by (simp add: heap_ok_def all_layout_ok_iff menu_addrs_def)
  from menu_ops_run_inv [OF this assms(2)] assms(3) have ok: "menu_layout_ok M"
    by (auto simp: all_layout_ok_iff)
  have "size_height M = sum_list (item_heights (menuitems M)) \<and>
        (\<forall>k < length (menuitems M).
           node_y (snd (menuitems M ! k)) = sum_list (item_heights (take k (menuitems M))))"
    if fit: "heights_fit M"
  proof -
    from fit have r: "in_int_range (sum_list (item_heights (take k (menuitems M))))"
      if "k \<le> length (menuitems M)" for k
      using that by (cases "k = length (menuitems M)") (auto simp: heights_fit_def list_all_iff)
    from r [of "length (menuitems M)"] ok
    have "size_height M = sum_list (item_heights (menuitems M))"
      by (simp add: menu_layout_ok_def cint_id)
    moreover have "node_y (snd (menuitems M ! k)) = sum_list (item_heights (take k (menuitems M)))"
      if "k < length (menuitems M)" for k
      using r [of k] ok that by (simp add: menu_layout_ok_def cint_id)
    ultimately show ?thesis by simp
  qed
  with ok show ?thesis by simp
qed

theorem menu_height_is_sum_of_item_heights_witness:
  "menus (initial_server example_theme) = [] \<and>
   menu_ops_run (example_env None []) example_ops (initial_server example_theme) =
     Some (the (menu_ops_run (example_env None []) example_ops (initial_server example_theme))) \<and>
   heights_fit (snd (hd (menus (the (menu_ops_run (example_env None []) example_ops
                                        (initial_server example_theme)))))) \<and>
   map (\<lambda>(a, M). (a, size_height M, sum_list (item_heights (menuitems M)),
                    map (\<lambda>(b, it). (node_y it, height it)) (menuitems M)))
     (menus (the (menu_ops_run (example_env None []) example_ops (initial_server example_theme))))
   = [(1, 55, 55, [(0, 24), (24, 7), (31, 24)]), (2, 0, 0, [])]"
proof -
  let ?r = "menu_ops_run (example_env None []) example_ops (initial_server example_theme)"
  have e: "menus (initial_server example_theme) = []"
    by (simp add: initial_server_def)
  have r: "?r = Some (the ?r)" by code_simp
  have f: "heights_fit (snd (hd (menus (the ?r))))" by code_simp
  have v: "map (\<lambda>(a, M). (a, size_height M, sum_list (item_heights (menuitems M)),
                    map (\<lambda>(b, it). (node_y it, height it)) (menuitems M))) (menus (the ?r))
           = [(1, 55, 55, [(0, 24), (24, 7), (31, 24)]), (2, 0, 0, [])]"
    by code_simp
  have "menus (the ?r) \<noteq> []" using v by auto
  then have "(fst (hd (menus (the ?r))), snd (hd (menus (the ?r)))) \<in> set (menus (the ?r))"
    by simp
  from menu_height_is_sum_of_item_heights [OF e r this] e r f v
  show ?thesis by simp
qed

text \<open>
  C6. For a theme whose minimum width does not exceed its maximum width, the width
  \<^verbatim>\<open>menu_update_width\<close> computes for a menu with items is the maximum of the minimum width
  and the widest item's natural width clamped to the maximum width, plus twice the
  horizontal item padding, where that sum is in the range of an \<^verbatim>\<open>int\<close>; clamping to the
  maximum width before or after taking the maximum with the minimum width gives the same
  value. For a menu without items it is the minimum width plus twice the padding.
\<close>

theorem menu_update_width_closed_form:
  assumes "menu_min_width th \<le> menu_max_width th"
    and "in_int_range (if menuitems M = [] then menu_min_width th + 2 * menu_item_padding_x th
                       else spec_width th M)"
  shows "size_width (menu_update_width th M) =
           (if menuitems M = [] then menu_min_width th + 2 * menu_item_padding_x th
            else spec_width th M) \<and>
         spec_width th M = spec_width_clamped_last th M"
proof -
  let ?w = "menu_update_width_widest th (menuitems M) (menu_min_width th)"
  let ?p = "menu_item_padding_x th"
  have "size_width (menu_update_width th M) = cint (?w + cint (2 * ?p))"
    by (simp add: menu_update_width_def Let_def cadd_def cmul_def)
  also have "\<dots> = cint (?w + 2 * ?p)" by (rule cint_add_right)
  also have "?w + 2 * ?p =
      (if menuitems M = [] then menu_min_width th + 2 * ?p else spec_width th M)"
    using assms(1) by (simp add: widest_closed_form spec_width_def widest_native_width_def)
  also have "cint \<dots> = (if menuitems M = [] then menu_min_width th + 2 * ?p else spec_width th M)"
    using assms(2) by (rule cint_id)
  finally have "size_width (menu_update_width th M) =
      (if menuitems M = [] then menu_min_width th + 2 * ?p else spec_width th M)" .
  moreover have "spec_width th M = spec_width_clamped_last th M"
    using assms(1) by (simp add: spec_width_def spec_width_clamped_last_def max_def min_def)
  ultimately show ?thesis by simp
qed

theorem menu_update_width_closed_form_witness:
  "menu_min_width example_theme \<le> menu_max_width example_theme \<and>
   in_int_range (spec_width example_theme (one_item_menu 300)) \<and>
   size_width (menu_update_width example_theme (one_item_menu 300)) = 214 \<and>
   spec_width example_theme (one_item_menu 300) = 214 \<and>
   spec_width_clamped_last example_theme (one_item_menu 300) = 214"
  using menu_update_width_closed_form [of example_theme "one_item_menu 300"]
  by (simp add: example_theme_def one_item_menu_def spec_width_def widest_native_width_def
        in_int_range_def INT_MIN_def INT_MAX_def)

text \<open>
  C7. Creating a menu whose id is already registered logs a diagnostic and does not
  fail: the new menu is appended to the registry, and a lookup by that id afterwards
  still returns the menu that was registered first under it (the first in list order).
  Looking up a null id, or an id that no live menu has, returns NULL (not found).
\<close>

theorem menu_create_duplicate_id:
  "(\<not> is_unique_id s i \<longrightarrow>
      (\<exists>pre first M0 post M.
         menus s = pre @ (first, M0) # post \<and> menu_id M0 = i \<and> is_unique_id_loop pre i \<and>
         menu_get_by_id s (Some i) = Some first \<and>
         wlr_log (snd (menu_create s i lbl)) =
           wlr_log s @ [(WLR_ERROR, ''menu id %s already exists'', [S i])] \<and>
         menus (snd (menu_create s i lbl)) = menus s @ [(fst (menu_create s i lbl), M)] \<and>
         menu_id M = i \<and>
         menu_get_by_id (snd (menu_create s i lbl)) (Some i) = Some first)) \<and>
   menu_get_by_id s None = None \<and>
   (is_unique_id s j \<longrightarrow> menu_get_by_id s (Some j) = None)"
proof (intro conjI impI)
  assume dup: "\<not> is_unique_id s i"
  then obtain pre first M0 post where
    h: "menus s = pre @ (first, M0) # post" "menu_id M0 = i" "is_unique_id_loop pre i"
       "menu_get_by_id_loop (menus s) i = Some first"
    using menu_get_by_id_loop_first [of "menus s" i] by (auto simp: is_unique_id_def)
  have "menu_get_by_id (snd (menu_create s i lbl)) (Some i) = Some first"
    using h(4) by (simp add: menu_get_by_id_def menus_menu_create menu_get_by_id_loop_append)
  with h dup show "\<exists>pre first M0 post M.
         menus s = pre @ (first, M0) # post \<and> menu_id M0 = i \<and> is_unique_id_loop pre i \<and>
         menu_get_by_id s (Some i) = Some first \<and>
         wlr_log (snd (menu_create s i lbl)) =
           wlr_log s @ [(WLR_ERROR, ''menu id %s already exists'', [S i])] \<and>
         menus (snd (menu_create s i lbl)) = menus s @ [(fst (menu_create s i lbl), M)] \<and>
         menu_id M = i \<and>
         menu_get_by_id (snd (menu_create s i lbl)) (Some i) = Some first"
    by (simp add: menu_get_by_id_def wlr_log_menu_create menus_menu_create) blast
next
  show "menu_get_by_id s None = None" by (simp add: menu_get_by_id_def)
next
  assume "is_unique_id s j"
  then show "menu_get_by_id s (Some j) = None"
    by (simp add: menu_get_by_id_def is_unique_id_def menu_get_by_id_loop_None)
qed

theorem menu_create_duplicate_id_witness:
  "\<not> is_unique_id (snd (menu_create (initial_server example_theme) ''a'' None)) ''a'' \<and>
   is_unique_id (snd (menu_create (initial_server example_theme) ''a'' None)) ''b'' \<and>
   menu_get_by_id (snd (menu_create (initial_server example_theme) ''a'' None)) (Some ''a'') = Some 1 \<and>
   menu_get_by_id
     (snd (menu_create (snd (menu_create (initial_server example_theme) ''a'' None)) ''a'' None))
     (Some ''a'') = Some 1 \<and>
   menu_addrs
     (snd (menu_create (snd (menu_create (initial_server example_theme) ''a'' None)) ''a'' None))
     = [1, 2] \<and>
   menu_get_by_id (snd (menu_create (initial_server example_theme) ''a'' None)) (Some ''b'') = None"
proof -
  let ?s = "snd (menu_create (initial_server example_theme) ''a'' None)"
  have d: "\<not> is_unique_id ?s ''a''" by code_simp
  have u: "is_unique_id ?s ''b''" by code_simp
  have f: "menu_get_by_id ?s (Some ''a'') = Some 1" by code_simp
  have a: "menu_addrs (snd (menu_create ?s ''a'' None)) = [1, 2]" by code_simp
  from menu_create_duplicate_id [of ?s "''a''" None "''b''"] d u f a
  show ?thesis by auto
qed

text \<open>
  C9. Selecting the item that was selected by the call before, once that call has
  returned, is a no-op: the second call returns the state unchanged, whatever the
  spawner would have returned. No selection state changes, no submenu is opened or
  closed, and no second request context is registered.
\<close>

theorem select_twice_is_noop:
  assumes "menu_process_item_selection k sp item s = Some s'"
  shows "menu_process_item_selection k' sp' item s' = Some s'"
proof (cases "Some item = selected_item s \<or> waiting_for_pipe_menu s")
  case True
  from select_noop [OF True] assms have "s' = s" by simp
  with True show ?thesis using select_noop by simp
next
  case False
  with selected_item_select [OF assms] have "selected_item s' = Some item" by simp
  then show ?thesis using select_noop by simp
qed

theorem select_twice_is_noop_witness:
  "menu_process_item_selection 8 (4242, 7) 4 opened_server = Some waiting_server \<and>
   menu_process_item_selection 3 (4243, 9) 4 waiting_server = Some waiting_server \<and>
   opened_server \<noteq> waiting_server"
proof -
  have 1: "menu_process_item_selection 8 (4242, 7) 4 opened_server = Some waiting_server"
    using waiting_server_reached by (simp add: menu_process_cursor_motion_def)
  have "selected_item opened_server \<noteq> selected_item waiting_server" by code_simp
  then have "opened_server \<noteq> waiting_server" by auto
  with select_twice_is_noop [OF 1, of 3 "(4243, 9)"] 1 show ?thesis by simp
qed

text \<open>
  C10. After \<^verbatim>\<open>menu_free\<close>, after the pipe-menu teardown \<^verbatim>\<open>destroy_pipemenus\<close> and after
  the bulk destruction \<^verbatim>\<open>menu_free_from\<close>, for every menu freed (live before, not live
  after), no surviving menu has the freed menu as its parent and no item of a surviving
  menu has it as its submenu.
\<close>

theorem freed_menu_is_unreferenced:
  assumes "s' = menu_free x s \<or> s' = destroy_pipemenus s \<or> s' = menu_free_from s from"
    and "m \<in> set (menu_addrs s)" and "m \<notin> set (menu_addrs s')"
    and "(a, M) \<in> set (menus s')"
  shows "parent M \<noteq> Some m \<and> (\<forall>(b, it) \<in> set (menuitems M). submenu it \<noteq> Some m)"
proof -
  have "unreferenced m s'"
    using assms(1)
  proof (elim disjE)
    assume "s' = menu_free x s"
    with assms(2,3) show ?thesis using freed_by_menu_free [of m s x] by simp
  next
    assume "s' = destroy_pipemenus s"
    with assms(2,3) show ?thesis
      using freed_by_destroy_pipemenus_loop
        [of m "log_msg WLR_DEBUG ''number of menus before close=%d'' [I (int (length (menus s)))] s"
           "menus s"]
      by (simp add: destroy_pipemenus_def Let_def)
  next
    assume "s' = menu_free_from s from"
    with assms(2,3) show ?thesis
      using freed_by_menu_free_from_loop [of m s "from" "from = None" "menus s"]
      by (simp add: menu_free_from_def)
  qed
  with assms(4) show ?thesis
    by (auto simp: unreferenced_iff refers_to_iff)
qed

theorem freed_menu_is_unreferenced_witness:
  "13 \<in> set (menu_addrs spliced_server) \<and>
   13 \<notin> set (menu_addrs (destroy_pipemenus spliced_server)) \<and>
   map (\<lambda>(a, M). (a, parent M, map (\<lambda>(b, it). submenu it) (menuitems M))) (menus spliced_server)
     = [(1, None, [None, Some 13, None, Some 7]), (7, Some 1, [None]), (9, None, [None]),
        (13, Some 1, [None])] \<and>
   map (\<lambda>(a, M). (a, parent M, map (\<lambda>(b, it). submenu it) (menuitems M)))
       (menus (destroy_pipemenus spliced_server))
     = [(1, None, [None, None, None, Some 7]), (7, Some 1, [None]), (9, None, [None])]"
proof -
  let ?s' = "destroy_pipemenus spliced_server"
  have 1: "13 \<in> set (menu_addrs spliced_server)" by code_simp
  have 2: "13 \<notin> set (menu_addrs ?s')" by code_simp
  have 3: "map (\<lambda>(a, M). (a, parent M, map (\<lambda>(b, it). submenu it) (menuitems M))) (menus spliced_server)
     = [(1, None, [None, Some 13, None, Some 7]), (7, Some 1, [None]), (9, None, [None]),
        (13, Some 1, [None])]"
    by code_simp
  have 4: "map (\<lambda>(a, M). (a, parent M, map (\<lambda>(b, it). submenu it) (menuitems M))) (menus ?s')
     = [(1, None, [None, None, None, Some 7]), (7, Some 1, [None]), (9, None, [None])]"
    by code_simp
  have "menus ?s' \<noteq> []" using 4 by auto
  then have "(fst (hd (menus ?s')), snd (hd (menus ?s'))) \<in> set (menus ?s')" by simp
  from freed_menu_is_unreferenced [OF _ 1 2 this, of 0 None] 1 2 3 4
  show ?thesis by simp
qed

end
